theory Spec2Isabelle
  imports Complex_Main
begin

section \<open>The ultratest command (meta/management/commands/ultratest.py)\<close>

subsection \<open>Terminal output\<close>

text \<open>
  Everything the command writes is kept as a list of output events, in the order written:
  \<open>Print s\<close> is \<open>print(s)\<close>, \<open>Secho msg nl fg\<close> is \<open>click.secho(msg, nl=nl, fg=fg)\<close>
  (\<open>nl\<close> defaults to \<open>True\<close>, \<open>fg\<close> to \<open>None\<close>), \<open>Write b\<close> is
  \<open>sys.stdout.buffer.write(b)\<close>, and \<open>Stream b\<close> is what a subprocess writes straight to the
  terminal when its stdout is inherited (\<open>stdout=None\<close>).
\<close>

datatype out = Print string | Secho string bool "string option" | Write string | Stream string

definition RAINBOW_COLORS :: "string list" where
  "RAINBOW_COLORS = map (\<lambda>color. [CHR 0x1B] @ ''[38;5;'' @ color)
     [''160;01m'', ''196;01m'', ''202;01m'', ''208;01m'', ''214;01m'', ''220;01m'', ''226;01m'',
      ''190;01m'', ''154;01m'', ''118;01m'', ''046;01m'', ''047;01m'', ''048;01m'', ''049;01m'',
      ''051;01m'', ''039;01m'', ''027;01m'', ''021;01m'', ''021;01m'', ''057;01m'', ''093;01m'']"

definition RESET_COLORS :: string where
  "RESET_COLORS = [CHR 0x1B] @ ''[m''"

text \<open>The logo, already split into its lines (\<open>ascii_art.splitlines()\<close>).\<close>

definition ASCII_ART_LOGO :: "string list" where
  "ASCII_ART_LOGO =
    [''  _    _ _ _          _______        _'',
     '' | |  | | | |        |__   __|      | |'',
     '' | |  | | | |_ _ __ __ _| | ___  ___| |_'',
     '' | |  | | | __| '' @ [CHR 0x27] @ ''__/ _'' @ [CHR 0x60] @ '' | |/ _ '' @ [CHR 0x5C]
        @ ''/ __| __|'',
     '' | |__| | | |_| | | (_| | |  __/'' @ [CHR 0x5C] @ ''__ '' @ [CHR 0x5C] @ '' |_'',
     ''  '' @ [CHR 0x5C] @ ''____/|_|'' @ [CHR 0x5C] @ ''__|_|  '' @ [CHR 0x5C] @ ''__,_|_|''
        @ [CHR 0x5C] @ ''___||___/'' @ [CHR 0x5C] @ ''__|'']"

definition print_with_rainbow_colors :: "string list \<Rightarrow> out list" where
  "print_with_rainbow_colors ascii_art =
     map (\<lambda>(color, line). Print (color @ line)) (zip RAINBOW_COLORS ascii_art)
     @ [Print RESET_COLORS]"

definition echo :: "int \<Rightarrow> string \<Rightarrow> int \<Rightarrow> bool \<Rightarrow> string option \<Rightarrow> out list" where
  "echo verbosity msg v_level nl fg = (if verbosity < v_level then [] else [Secho msg nl fg])"

subsection \<open>Floats\<close>

text \<open>
  A Python float is a finite number, an infinity or not a number. A finite float is
  represented by the real number it denotes. \<open>float_sub\<close> is \<open>-\<close> and \<open>float_less\<close> is \<open><\<close> on
  floats, as IEEE 754 has them on the special values: a comparison with \<open>nan\<close> is false,
  and the difference of two equal infinities is \<open>nan\<close>.
\<close>

datatype pyfloat = Finite real | PosInf | NegInf | NaN

fun float_sub :: "pyfloat \<Rightarrow> pyfloat \<Rightarrow> pyfloat" where
  "float_sub NaN y = NaN"
| "float_sub x NaN = NaN"
| "float_sub (Finite x) (Finite y) = Finite (x - y)"
| "float_sub (Finite x) PosInf = NegInf"
| "float_sub (Finite x) NegInf = PosInf"
| "float_sub PosInf PosInf = NaN"
| "float_sub PosInf y = PosInf"
| "float_sub NegInf NegInf = NaN"
| "float_sub NegInf y = NegInf"

fun float_less :: "pyfloat \<Rightarrow> pyfloat \<Rightarrow> bool" where
  "float_less NaN y = False"
| "float_less x NaN = False"
| "float_less (Finite x) (Finite y) = (x < y)"
| "float_less (Finite x) PosInf = True"
| "float_less (Finite x) NegInf = False"
| "float_less PosInf y = False"
| "float_less NegInf NegInf = False"
| "float_less NegInf y = True"

subsection \<open>The coverage file\<close>

text \<open>
  \<open>coverage.xml\<close> as \<open>get_coverage\<close> sees it: absent, not well-formed, or a document. An
  element has a tag, its attributes (a dictionary, kept as an association list) and its
  children in document order.
\<close>

datatype xml = Element (tag: string) (attrib: "(string \<times> string) list") (children: "xml list")

datatype coverage_file = NoSuchFile | NotWellFormed | Document xml

datatype parse_exception = FileNotFoundError | ParseError | AttributeError | KeyError | ValueError

definition find_child :: "string \<Rightarrow> xml \<Rightarrow> xml list" where
  "find_child t e = filter (\<lambda>c. tag c = t) (children e)"

text \<open>\<open>root.find('packages/package')\<close>: the first match in document order, or \<open>None\<close>.\<close>

definition find_packages_package :: "xml \<Rightarrow> xml option" where
  "find_packages_package root_elem =
     (case concat (map (find_child ''package'') (find_child ''packages'' root_elem)) of
        [] \<Rightarrow> None
      | p # _ \<Rightarrow> Some p)"

text \<open>
  The body of the \<open>try\<close> block of \<open>get_coverage\<close>, with each exception it can raise. The
  conversion \<open>float(s)\<close> is a parameter: \<open>None\<close> stands for its \<open>ValueError\<close>.
\<close>

definition read_branch_rate ::
    "(string \<Rightarrow> pyfloat option) \<Rightarrow> coverage_file \<Rightarrow> parse_exception + pyfloat" where
  "read_branch_rate py_float f =
     (case f of
        NoSuchFile \<Rightarrow> Inl FileNotFoundError
      | NotWellFormed \<Rightarrow> Inl ParseError
      | Document root_elem \<Rightarrow>
          (case find_packages_package root_elem of
             None \<Rightarrow> Inl AttributeError
           | Some package \<Rightarrow>
               (case map_of (attrib package) ''branch-rate'' of
                  None \<Rightarrow> Inl KeyError
                | Some s \<Rightarrow>
                    (case py_float s of
                       None \<Rightarrow> Inl ValueError
                     | Some x \<Rightarrow> Inr x))))"

definition get_coverage :: "(string \<Rightarrow> pyfloat option) \<Rightarrow> coverage_file \<Rightarrow> pyfloat option" where
  "get_coverage py_float f =
     (case read_branch_rate py_float f of Inl e \<Rightarrow> None | Inr x \<Rightarrow> Some x)"

subsection \<open>Test types\<close>

record testtype =
  name :: string
  cmd :: string

definition TESTTYPES_TO_REPORT_COVERAGE_ON :: "string list" where
  "TESTTYPES_TO_REPORT_COVERAGE_ON = [''py.test'']"

text \<open>
  \<open>IS_RUNNING_IN_DOCKER\<close> comes from the module \<open>docker_django_management\<close> and is taken as
  a parameter.
\<close>

definition ESLINT_CMD :: "bool \<Rightarrow> string" where
  "ESLINT_CMD is_running_in_docker =
     (if is_running_in_docker
      then ''eslint --rule '' @ [CHR 0x22] @ ''import/no-unresolved: off'' @ [CHR 0x22]
           @ '' --max-warnings 0 .''
      else ''npm run failable-eslint'')"

definition TESTTYPES :: "bool \<Rightarrow> testtype list" where
  "TESTTYPES is_running_in_docker =
    [\<lparr>name = ''flake8'', cmd = ''flake8 --exclude=node_modules,migrations .''\<rparr>,
     \<lparr>name = ''eslint'', cmd = ESLINT_CMD is_running_in_docker\<rparr>,
     \<lparr>name = ''bandit'', cmd = ''bandit -r .''\<rparr>,
     \<lparr>name = ''py.test'', cmd = ''py.test --cov-report xml --cov-report term --cov''\<rparr>,
     \<lparr>name = ''jest'', cmd = ''npm test''\<rparr>]"

fun join :: "string \<Rightarrow> string list \<Rightarrow> string" where
  "join joiner [] = []"
| "join joiner [s] = s"
| "join joiner (s # t # ss) = s @ joiner @ join joiner (t # ss)"

text \<open>\<open>not testtypes\<close> holds for \<open>None\<close> and for the empty list.\<close>

definition get_testtype_names :: "bool \<Rightarrow> testtype list option \<Rightarrow> string \<Rightarrow> string" where
  "get_testtype_names d testtypes joiner =
     (let testtypes' = (case testtypes of
                          None \<Rightarrow> TESTTYPES d
                        | Some ts \<Rightarrow> if ts = [] then TESTTYPES d else ts)
      in join joiner (map name testtypes'))"

datatype cli_error = CommandError string | TypeError

definition get_testtype :: "bool \<Rightarrow> string \<Rightarrow> cli_error + testtype" where
  "get_testtype d n =
     (case filter (\<lambda>t. name t = n) (TESTTYPES d) of
        t # _ \<Rightarrow> Inr t
      | [] \<Rightarrow> Inl (CommandError ([CHR 0x22] @ n @ [CHR 0x22]
                  @ '' is not a valid test type. Please choose from ''
                  @ get_testtype_names d None '', '' @ ''.'')))"

text \<open>
  The comprehension \<open>[get_testtype(t) for t in testtype_names]\<close>: the first name that
  raises ends it.
\<close>

fun get_testtypes :: "bool \<Rightarrow> string list \<Rightarrow> cli_error + testtype list" where
  "get_testtypes d [] = Inr []"
| "get_testtypes d (t # ts) =
     (case get_testtype d t of
        Inl e \<Rightarrow> Inl e
      | Inr x \<Rightarrow> (case get_testtypes d ts of Inl e \<Rightarrow> Inl e | Inr xs \<Rightarrow> Inr (x # xs)))"

subsection \<open>The environment of a run\<close>

text \<open>
  \<open>subprocess.call\<close> either returns the exit status of the process (with what the process
  wrote) or is cut short by Ctrl-C, which raises \<open>KeyboardInterrupt\<close> in the command.
\<close>

datatype proc_result = Returned int string | KeyboardInterrupt

text \<open>
  The environment answers what the code asks of the outside world:
  \<open>subprocess_call env k c\<close> is the result of the \<open>k\<close>-th call of \<open>subprocess.call\<close> (counting
  from \<open>0\<close>) when it runs command \<open>c\<close>; \<open>coverage_xml env k\<close> is the file \<open>coverage.xml\<close> as it
  is after \<open>k\<close> subprocess calls; \<open>py_float\<close> is \<open>float\<close> on strings and \<open>format_percent\<close>
  is \<open>'{:.2%}'.format\<close> on floats.
\<close>

record env =
  IS_RUNNING_IN_DOCKER :: bool
  subprocess_call :: "nat \<Rightarrow> string \<Rightarrow> proc_result"
  coverage_xml :: "nat \<Rightarrow> coverage_file"
  py_float :: "string \<Rightarrow> pyfloat option"
  format_percent :: "pyfloat \<Rightarrow> string"

subsection \<open>The loop over the test types\<close>

record loop_state =
  failures :: "string list"
  failure_outputs :: "string list"
  printed :: "out list"
  calls :: "string list"

text \<open>
  The \<open>for\<close> loop inside the \<open>try\<close>. The Boolean of the result says whether
  \<open>KeyboardInterrupt\<close> was raised. \<open>calls\<close> lists the commands handed to \<open>subprocess.call\<close>
  so far. \<open>result is not 0\<close> compares a small integer with \<open>0\<close> and is \<open>result \<noteq> 0\<close>.
\<close>

fun test_loop :: "env \<Rightarrow> int \<Rightarrow> testtype list \<Rightarrow> loop_state \<Rightarrow> bool \<times> loop_state" where
  "test_loop env verbosity [] st = (False, st)"
| "test_loop env verbosity (entry # rest) st =
     (let is_verbose = verbosity > 1;
          st1 = st\<lparr>printed := printed st
                     @ echo verbosity (''-> '' @ name entry @ '' '') 1 is_verbose None
                     @ echo verbosity (''Running '' @ [CHR 0x22] @ cmd entry @ [CHR 0x22]) 2 True None,
                   calls := calls st @ [cmd entry]\<rparr>
      in case subprocess_call env (length (calls st)) (cmd entry) of
           KeyboardInterrupt \<Rightarrow> (True, st1)
         | Returned result output \<Rightarrow>
             (let st2 = (if is_verbose then st1\<lparr>printed := printed st1 @ [Stream output]\<rparr>
                         else st1);
                  st3 = (if result \<noteq> 0
                         then st2\<lparr>failures := failures st2 @ [name entry],
                                  failure_outputs :=
                                    (if is_verbose then failure_outputs st2
                                     else failure_outputs st2 @ [output])\<rparr>
                         else st2);
                  st4 = (if \<not> is_verbose
                         then st3\<lparr>printed := printed st3
                                    @ (if result = 0
                                       then echo verbosity ''OK'' 1 True (Some ''green'')
                                       else echo verbosity ''FAIL'' 1 True (Some ''red''))\<rparr>
                         else st3)
              in test_loop env verbosity rest st4))"

subsection \<open>The reports and the command\<close>

text \<open>Lines 170 to 172: the state the loop starts in, after what has been printed so far.\<close>

definition st0 :: "out list \<Rightarrow> loop_state" where
  "st0 p = \<lparr>failures = [], failure_outputs = [], printed = p, calls = []\<rparr>"

definition report_failure_outputs :: "int \<Rightarrow> string list \<Rightarrow> string list \<Rightarrow> out list" where
  "report_failure_outputs verbosity fs outputs =
     (if outputs \<noteq> []
      then concat (map (\<lambda>(failure, output).
                         echo verbosity (replicate 78 (CHR ''-'')) 0 True None
                         @ echo verbosity (''Output from '' @ failure @ '':'' @ [CHR 0x0A]) 0 True
                             (Some ''red'')
                         @ [Write output]
                         @ echo verbosity [CHR 0x0A] 0 True None)
                       (zip fs outputs))
      else [])"

definition report_failing_tests :: "int \<Rightarrow> string list \<Rightarrow> out list" where
  "report_failing_tests verbosity fs =
     (if length fs > 0 then echo verbosity (''Failing tests: '' @ join '', '' fs) 0 True None
      else [])"

text \<open>
  \<open>if coverage_before:\<close> and \<open>not coverage_before\<close> test truthiness: \<open>None\<close> and \<open>0.0\<close> are
  false, every other float is true, \<open>nan\<close> and the infinities too.
\<close>

definition truthy :: "pyfloat option \<Rightarrow> bool" where
  "truthy c = (case c of None \<Rightarrow> False | Some x \<Rightarrow> x \<noteq> Finite 0)"

text \<open>
  The block under the second \<open>if report_coverage:\<close>. Formatting \<open>None\<close> with \<open>{:.2%}\<close>
  raises \<open>TypeError\<close>; the format call is evaluated before \<open>echo\<close> looks at the verbosity.
\<close>

definition coverage_report ::
    "env \<Rightarrow> int \<Rightarrow> pyfloat option \<Rightarrow> pyfloat option \<Rightarrow> cli_error + out list" where
  "coverage_report env verbosity coverage_before coverage_after =
     (case coverage_after of
        None \<Rightarrow> Inl TypeError
      | Some after \<Rightarrow>
          Inr (echo verbosity (''Coverage: '' @ format_percent env after) 1
                 (\<not> truthy coverage_before) None
               @ (if truthy coverage_before
                  then (let diff = float_sub after (the coverage_before)
                        in if float_less diff (Finite 0)
                           then echo verbosity ('' ('' @ format_percent env diff @ '' from last run)'')
                                  1 True (Some ''red'')
                           else if float_less (Finite 0) diff
                           then echo verbosity ('' (+'' @ format_percent env diff @ '' from last run)'')
                                  1 True (Some ''green'')
                           else echo verbosity '' (same as last run)'' 1 True None)
                  else [])))"

text \<open>
  How the command ends: \<open>sys.exit(exit_code)\<close>, or an exception that leaves it.
\<close>

datatype outcome = Exit int | Raised cli_error

record result =
  outcome :: outcome
  stdout :: "out list"
  invoked :: "string list"

text \<open>
  Lines 150 to 153: the test types to run, or the \<open>CommandError\<close> of the first unknown name.
\<close>

definition to_run_for :: "bool \<Rightarrow> string list \<Rightarrow> cli_error + testtype list" where
  "to_run_for d testtype_names =
     (if testtype_names \<noteq> [] then get_testtypes d testtype_names else Inr (TESTTYPES d))"

text \<open>Lines 160 to 164: the flag \<open>report_coverage\<close> after the first loop.\<close>

definition reports_coverage :: "testtype list \<Rightarrow> bool" where
  "reports_coverage to_run = (\<exists>t \<in> set to_run. name t \<in> set TESTTYPES_TO_REPORT_COVERAGE_ON)"

text \<open>Lines 155 to 158.\<close>

definition running_message :: "bool \<Rightarrow> int \<Rightarrow> testtype list \<Rightarrow> out list" where
  "running_message d verbosity to_run =
     (if to_run = TESTTYPES d
      then echo verbosity ''Running ALL THE TESTS'' 1 True None
      else echo verbosity (''Running '' @ get_testtype_names d (Some to_run) '', '') 1 True None)"

definition command :: "env \<Rightarrow> int \<Rightarrow> string list \<Rightarrow> result" where
  "command env verbosity testtype_names =
     (let d = IS_RUNNING_IN_DOCKER env;
          banner = print_with_rainbow_colors ASCII_ART_LOGO
      in case to_run_for d testtype_names of
           Inl e \<Rightarrow> \<lparr>outcome = Raised e, stdout = banner, invoked = []\<rparr>
         | Inr to_run \<Rightarrow>
             (let running = running_message d verbosity to_run;
                  report_coverage = reports_coverage to_run;
                  coverage_before =
                    (if report_coverage then get_coverage (py_float env) (coverage_xml env 0)
                     else None);
                  (interrupted, st) =
                    test_loop env verbosity to_run (st0 (banner @ running));
                  aborting = (if interrupted then echo verbosity ''Aborting test run.'' 0 True None
                              else []);
                  exit_code = (if interrupted then 1 else 0);
                  out1 = printed st @ aborting
                         @ report_failure_outputs verbosity (failures st) (failure_outputs st)
                         @ report_failing_tests verbosity (failures st);
                  exit_code' = (if length (failures st) > 0 then 1 else exit_code)
              in if report_coverage
                 then (case coverage_report env verbosity coverage_before
                              (get_coverage (py_float env)
                                 (coverage_xml env (length (calls st)))) of
                         Inl e \<Rightarrow> \<lparr>outcome = Raised e, stdout = out1, invoked = calls st\<rparr>
                       | Inr lines \<Rightarrow>
                           \<lparr>outcome = Exit exit_code', stdout = out1 @ lines,
                            invoked = calls st\<rparr>)
                 else \<lparr>outcome = Exit exit_code', stdout = out1, invoked = calls st\<rparr>))"

subsection \<open>What a run meets\<close>

text \<open>
  The results the environment holds for the test types of a run, the \<open>k\<close>-th call being
  the first; the calls that came back before any Ctrl-C; and the notions the statements
  below are written in.
\<close>

definition scheduled :: "env \<Rightarrow> nat \<Rightarrow> testtype list \<Rightarrow> proc_result list" where
  "scheduled env k to_run =
     map (\<lambda>(i, t). subprocess_call env i (cmd t)) (enumerate k to_run)"

definition completed :: "env \<Rightarrow> nat \<Rightarrow> testtype list \<Rightarrow> proc_result list" where
  "completed env k to_run = takeWhile (\<lambda>r. r \<noteq> KeyboardInterrupt) (scheduled env k to_run)"

definition is_failure :: "proc_result \<Rightarrow> bool" where
  "is_failure r = (case r of Returned c outp \<Rightarrow> c \<noteq> 0 | KeyboardInterrupt \<Rightarrow> False)"

definition interrupted_run :: "env \<Rightarrow> testtype list \<Rightarrow> bool" where
  "interrupted_run env to_run = (KeyboardInterrupt \<in> set (scheduled env 0 to_run))"

definition any_failed :: "env \<Rightarrow> testtype list \<Rightarrow> bool" where
  "any_failed env to_run = (\<exists>r \<in> set (completed env 0 to_run). is_failure r)"

definition failed_names :: "env \<Rightarrow> testtype list \<Rightarrow> string list" where
  "failed_names env to_run =
     map (name \<circ> fst) (filter (is_failure \<circ> snd) (zip to_run (completed env 0 to_run)))"

definition started :: "env \<Rightarrow> testtype list \<Rightarrow> testtype list" where
  "started env to_run = take (Suc (length (completed env 0 to_run))) to_run"

definition coverage_before_run :: "env \<Rightarrow> pyfloat option" where
  "coverage_before_run env = get_coverage (py_float env) (coverage_xml env 0)"

definition coverage_after_run :: "env \<Rightarrow> testtype list \<Rightarrow> pyfloat option" where
  "coverage_after_run env to_run =
     get_coverage (py_float env) (coverage_xml env (length (started env to_run)))"

definition known_names :: "string list" where
  "known_names = [''flake8'', ''eslint'', ''bandit'', ''py.test'', ''jest'']"

subsection \<open>Sample environments\<close>

text \<open>
  Concrete environments on which the statements below are instantiated. The sample
  conversions agree with Python on the few strings and numbers that occur.
\<close>

definition sample_float :: "string \<Rightarrow> pyfloat option" where
  "sample_float s =
     (if s = ''0.75'' then Some (Finite (3 / 4))
      else if s = ''0.5'' then Some (Finite (1 / 2))
      else if s = ''0'' then Some (Finite 0)
      else if s = ''nan'' then Some NaN
      else None)"

definition sample_percent :: "pyfloat \<Rightarrow> string" where
  "sample_percent x =
     (if x = Finite (3 / 4) then ''75.00%''
      else if x = Finite (1 / 2) then ''50.00%''
      else if x = Finite (1 / 4) then ''25.00%''
      else if x = Finite 0 then ''0.00%''
      else if x = NaN then ''nan%''
      else ''?'')"

definition coverage_doc :: "string \<Rightarrow> coverage_file" where
  "coverage_doc rate =
     Document (Element ''coverage'' [(''version'', ''4.0'')]
       [Element ''sources'' [] [],
        Element ''packages'' []
          [Element ''package'' [(''name'', ''.''), (''line-rate'', ''0.9''), (''branch-rate'', rate)]
             []]])"

text \<open>Every tool passes; the coverage rises from 50% to 75%.\<close>

definition env_pass :: env where
  "env_pass = \<lparr>IS_RUNNING_IN_DOCKER = False,
               subprocess_call = (\<lambda>k c. Returned 0 []),
               coverage_xml = (\<lambda>k. if k = 0 then coverage_doc ''0.5'' else coverage_doc ''0.75''),
               py_float = sample_float,
               format_percent = sample_percent\<rparr>"

text \<open>Every tool passes; no \<open>coverage.xml\<close> exists before or after the run.\<close>

definition env_missing :: env where
  "env_missing = env_pass\<lparr>coverage_xml := (\<lambda>k. NoSuchFile)\<rparr>"

text \<open>Every tool passes; the last run left a branch rate of \<open>0\<close>.\<close>

definition env_zero_before :: env where
  "env_zero_before =
     env_pass\<lparr>coverage_xml := (\<lambda>k. if k = 0 then coverage_doc ''0'' else coverage_doc ''0.75'')\<rparr>"

text \<open>Every tool passes; the last run left a branch rate that reads as \<open>nan\<close>.\<close>

definition env_nan_before :: env where
  "env_nan_before =
     env_pass\<lparr>coverage_xml := (\<lambda>k. if k = 0 then coverage_doc ''nan''
                                    else coverage_doc ''0.75'')\<rparr>"

text \<open>The first tool started fails with status \<open>1\<close>, the others pass.\<close>

definition env_first_fails :: env where
  "env_first_fails =
     env_pass\<lparr>subprocess_call := (\<lambda>k c. if k = 0 then Returned 1 ''E501 line too long''
                                          else Returned 0 [])\<rparr>"

section \<open>The admin module (data_capture/admin.py)\<close>

subsection \<open>Decimal numerals\<close>

text \<open>What \<open>'{}'.format(n)\<close> gives for a natural number \<open>n\<close>.\<close>

fun str_nat :: "nat \<Rightarrow> string" where
  "str_nat n =
     (if n < 10 then [''0123456789'' ! n]
      else str_nat (n div 10) @ [''0123456789'' ! (n mod 10)])"

declare str_nat.simps [simp del]

subsection \<open>Usernames\<close>

datatype admin_error = Exception string | Key_Error string

text \<open>\<open>email.split('@')[0]\<close>: what stands before the first \<open>@\<close>.\<close>

definition local_part :: "string \<Rightarrow> string" where
  "local_part email = takeWhile (\<lambda>c. c \<noteq> CHR ''@'') email"

text \<open>
  The loop \<open>for i in range(max_attempts)\<close> of \<open>generate_username\<close>, from \<open>i\<close> on. The table
  of users is seen through the set of their usernames:
  \<open>User.objects.filter(username=username).exists()\<close> is \<open>username \<in> users\<close>.
\<close>

function attempts :: "string \<Rightarrow> string set \<Rightarrow> nat \<Rightarrow> nat \<Rightarrow> string option" where
  "attempts basename users i max_attempts =
     (if i < max_attempts
      then (let username = (if i = 0 then basename else basename @ str_nat i)
            in if username \<notin> users then Some username
               else attempts basename users (Suc i) max_attempts)
      else None)"
  by pat_completeness auto
termination
  by (relation "measure (\<lambda>(basename, users, i, max_attempts). max_attempts - i)") auto

declare attempts.simps [simp del]

text \<open>
  \<open>slugify\<close> is Django's \<open>django.utils.text.slugify\<close>, a parameter here. The slice
  \<open>[:15]\<close> is applied to the slug.
\<close>

definition generate_username ::
    "(string \<Rightarrow> string) \<Rightarrow> string set \<Rightarrow> string \<Rightarrow> nat \<Rightarrow> admin_error + string" where
  "generate_username slugify users email max_attempts =
     (let basename = take 15 (slugify (local_part email))
      in case attempts basename users 0 max_attempts of
           Some username \<Rightarrow> Inr username
         | None \<Rightarrow>
             Inl (Exception (''unable to generate username for '' @ email @ '' after ''
                             @ str_nat max_attempts @ '' attempts'')))"

text \<open>
  The notions of claim C8: the \<open>i\<close>-th candidate built on a base name, and the base name
  as the claim words it (the slug of the first 15 characters).
\<close>

definition candidate :: "string \<Rightarrow> nat \<Rightarrow> string" where
  "candidate basename i = (if i = 0 then basename else basename @ str_nat i)"

definition claimed_basename :: "(string \<Rightarrow> string) \<Rightarrow> string \<Rightarrow> string" where
  "claimed_basename slugify email = slugify (take 15 (local_part email))"

text \<open>
  A sample for \<open>slugify\<close>: on strings of lower-case letters, digits and dots Django's
  function drops the dots and keeps the rest.
\<close>

definition sample_slugify :: "string \<Rightarrow> string" where
  "sample_slugify s = filter (\<lambda>c. c \<noteq> CHR ''.'') s"

subsection \<open>Price lists\<close>

text \<open>
  The status constants and the price list come from \<open>data_capture/models.py\<close>; the four
  statuses are those of the data model. Of a price list the primary key and the status are
  kept. \<open>obj.status is SubmittedPriceList.STATUS_APPROVED\<close> compares two small integers and
  is equality.
\<close>

datatype status = STATUS_NEW | STATUS_APPROVED | STATUS_REJECTED | STATUS_UNAPPROVED

record submitted_price_list =
  pk :: nat
  status :: status

subsection \<open>Read-only fields\<close>

definition SubmittedPriceListRowInline_fields :: "string list" where
  "SubmittedPriceListRowInline_fields =
     [''labor_category'', ''education_level'', ''min_years_experience'', ''base_year_rate'',
      ''sin'', ''is_muted'']"

definition SubmittedPriceListRowInline_readonly_fields :: "string list" where
  "SubmittedPriceListRowInline_readonly_fields = []"

text \<open>
  \<open>obj\<close> is \<open>None\<close> or a price list; a model instance is truthy, so \<open>obj and ...\<close> is false
  only for \<open>None\<close> or for another status.
\<close>

definition SubmittedPriceListRowInline_get_readonly_fields ::
    "'request \<Rightarrow> submitted_price_list option \<Rightarrow> string list" where
  "SubmittedPriceListRowInline_get_readonly_fields request obj =
     (case obj of
        None \<Rightarrow> SubmittedPriceListRowInline_readonly_fields
      | Some price_list \<Rightarrow>
          if status price_list = STATUS_APPROVED then SubmittedPriceListRowInline_fields
          else SubmittedPriceListRowInline_readonly_fields)"

definition BaseSubmittedPriceListAdmin_fields :: "string list" where
  "BaseSubmittedPriceListAdmin_fields =
     [''contract_number'', ''vendor_name'', ''is_small_business'', ''schedule_title'',
      ''contractor_site'', ''contract_start'', ''contract_end'', ''submitter'', ''created_at'',
      ''updated_at'', ''current_status'', ''status_changed_at'', ''status_changed_by'']"

definition BaseSubmittedPriceListAdmin_readonly_fields :: "string list" where
  "BaseSubmittedPriceListAdmin_readonly_fields =
     [''schedule_title'', ''created_at'', ''updated_at'', ''current_status'', ''submitter'',
      ''status_changed_at'', ''status_changed_by'']"

definition BaseSubmittedPriceListAdmin_get_readonly_fields ::
    "'request \<Rightarrow> submitted_price_list option \<Rightarrow> string list" where
  "BaseSubmittedPriceListAdmin_get_readonly_fields request obj =
     (case obj of
        None \<Rightarrow> BaseSubmittedPriceListAdmin_readonly_fields
      | Some price_list \<Rightarrow>
          if status price_list = STATUS_APPROVED then BaseSubmittedPriceListAdmin_fields
          else BaseSubmittedPriceListAdmin_readonly_fields)"

subsection \<open>Permissions and actions\<close>

definition SubmittedPriceListRowInline_has_add_permission :: "'request \<Rightarrow> bool" where
  "SubmittedPriceListRowInline_has_add_permission request = False"

definition BaseSubmittedPriceListAdmin_has_add_permission :: "'request \<Rightarrow> bool" where
  "BaseSubmittedPriceListAdmin_has_add_permission request = False"

definition SubmittedPriceListRowAdmin_has_add_permission :: "'request \<Rightarrow> bool" where
  "SubmittedPriceListRowAdmin_has_add_permission request = False"

definition UndeletableModelAdmin_has_delete_permission :: "'request \<Rightarrow> 'obj option \<Rightarrow> bool" where
  "UndeletableModelAdmin_has_delete_permission request obj = False"

text \<open>
  \<open>get_actions\<close>: the dictionary that \<open>super().get_actions(request)\<close> returns is a
  parameter, kept in its order as an association list with distinct keys.
  \<open>del actions['delete_selected']\<close> raises \<open>KeyError\<close> when the key is absent.
\<close>

definition UndeletableModelAdmin_get_actions ::
    "(string \<times> 'action) list \<Rightarrow> admin_error + (string \<times> 'action) list" where
  "UndeletableModelAdmin_get_actions super_actions =
     (if ''delete_selected'' \<in> fst ` set super_actions
      then Inr (filter (\<lambda>(k, a). k \<noteq> ''delete_selected'') super_actions)
      else Inl (Key_Error ''delete_selected''))"

subsection \<open>Bulk actions\<close>

text \<open>
  The state the actions work on: the table of price lists, the notifications sent by the
  module \<open>email\<close>, and the messages added to the request.
\<close>

datatype notification =
  Price_list_approved nat | Price_list_unapproved nat | Price_list_rejected nat

record site =
  price_lists :: "submitted_price_list list"
  outbox :: "notification list"
  flash :: "string list"

text \<open>
  Modelled from the spec: the methods \<open>approve\<close>, \<open>unapprove\<close> and \<open>reject\<close> of
  \<open>SubmittedPriceList\<close> in \<open>data_capture/models.py\<close>, which is not among the sources. The
  spec gives a status with the values NEW, APPROVED, REJECTED, UNAPPROVED, "mutated via
  approve/unapprove/reject transitions": each method sets the status it is named for.
\<close>

definition SubmittedPriceList_approve :: "string \<Rightarrow> submitted_price_list \<Rightarrow> submitted_price_list" where
  "SubmittedPriceList_approve user price_list = price_list\<lparr>status := STATUS_APPROVED\<rparr>"

definition SubmittedPriceList_unapprove :: "string \<Rightarrow> submitted_price_list \<Rightarrow> submitted_price_list" where
  "SubmittedPriceList_unapprove user price_list = price_list\<lparr>status := STATUS_UNAPPROVED\<rparr>"

definition SubmittedPriceList_reject :: "string \<Rightarrow> submitted_price_list \<Rightarrow> submitted_price_list" where
  "SubmittedPriceList_reject user price_list = price_list\<lparr>status := STATUS_REJECTED\<rparr>"

text \<open>Saving an instance writes the row of its primary key.\<close>

definition save :: "submitted_price_list \<Rightarrow> submitted_price_list list \<Rightarrow> submitted_price_list list" where
  "save price_list table = map (\<lambda>r. if pk r = pk price_list then price_list else r) table"

text \<open>
  A queryset is the condition its rows meet; \<open>exclude\<close> and \<open>filter\<close> add to it, \<open>count()\<close>
  and the \<open>for\<close> loop evaluate it on the table as it is when they start.
\<close>

definition approve :: "string \<Rightarrow> (submitted_price_list \<Rightarrow> bool) \<Rightarrow> site \<Rightarrow> site" where
  "approve user queryset s =
     (let unapproved = (\<lambda>p. queryset p \<and> status p \<noteq> STATUS_APPROVED);
          count = length (filter unapproved (price_lists s));
          s' = foldl (\<lambda>s price_list.
                        s\<lparr>price_lists := save (SubmittedPriceList_approve user price_list)
                                            (price_lists s),
                          outbox := outbox s @ [Price_list_approved (pk price_list)]\<rparr>)
                     s (filter unapproved (price_lists s))
      in s'\<lparr>flash := flash s'
               @ [str_nat count @ '' price list(s) have been approved and added to CALC.'']\<rparr>)"

definition unapprove :: "string \<Rightarrow> (submitted_price_list \<Rightarrow> bool) \<Rightarrow> site \<Rightarrow> site" where
  "unapprove user queryset s =
     (let approved = (\<lambda>p. queryset p \<and> status p = STATUS_APPROVED);
          count = length (filter approved (price_lists s));
          s' = foldl (\<lambda>s price_list.
                        s\<lparr>price_lists := save (SubmittedPriceList_unapprove user price_list)
                                            (price_lists s),
                          outbox := outbox s @ [Price_list_unapproved (pk price_list)]\<rparr>)
                     s (filter approved (price_lists s))
      in s'\<lparr>flash := flash s'
               @ [str_nat count
                  @ '' price list(s) have been unapproved and removed from CALC.'']\<rparr>)"

definition reject :: "string \<Rightarrow> (submitted_price_list \<Rightarrow> bool) \<Rightarrow> site \<Rightarrow> site" where
  "reject user queryset s =
     (let new_pricelists = (\<lambda>p. queryset p \<and> status p = STATUS_NEW);
          count = length (filter new_pricelists (price_lists s));
          s' = foldl (\<lambda>s price_list.
                        s\<lparr>price_lists := save (SubmittedPriceList_reject user price_list)
                                            (price_lists s),
                          outbox := outbox s @ [Price_list_rejected (pk price_list)]\<rparr>)
                     s (filter new_pricelists (price_lists s))
      in s'\<lparr>flash := flash s' @ [str_nat count @ '' price list(s) have been rejected.'']\<rparr>)"

text \<open>
  The notions of claim C9: the rows whose status differs between two states of the table.
\<close>

definition transitioned :: "submitted_price_list list \<Rightarrow> submitted_price_list list \<Rightarrow> nat" where
  "transitioned before after =
     length (filter (\<lambda>(p, p'). status p \<noteq> status p') (zip before after))"

text \<open>A sample table: one price list of each of three statuses.\<close>

definition sample_site :: site where
  "sample_site =
     \<lparr>price_lists = [\<lparr>pk = 1, status = STATUS_NEW\<rparr>, \<lparr>pk = 2, status = STATUS_APPROVED\<rparr>,
                      \<lparr>pk = 3, status = STATUS_REJECTED\<rparr>],
      outbox = [], flash = []\<rparr>"

section \<open>Properties of the ultratest command\<close>

lemma scheduled_Cons:
  "scheduled env k (t # ts) = subprocess_call env k (cmd t) # scheduled env (Suc k) ts"
  by (simp add: scheduled_def)

lemma scheduled_Nil: "scheduled env k [] = []"
  by (simp add: scheduled_def)

lemma length_scheduled: "length (scheduled env k tr) = length tr"
  by (simp add: scheduled_def)

lemma length_completed: "length (completed env k tr) \<le> length tr"
  unfolding completed_def
  using length_takeWhile_le [of "\<lambda>r. r \<noteq> KeyboardInterrupt" "scheduled env k tr"]
  by (simp add: length_scheduled)

lemma test_loop_interrupted:
  "fst (test_loop env v tr st) = (KeyboardInterrupt \<in> set (scheduled env (length (calls st)) tr))"
proof (induction tr arbitrary: st)
  case Nil
  show ?case by (simp add: scheduled_Nil)
next
  case (Cons entry rest)
  show ?case
  proof (cases "subprocess_call env (length (calls st)) (cmd entry)")
    case KeyboardInterrupt
    then show ?thesis by (simp add: scheduled_Cons Let_def)
  next
    case (Returned c outp)
    then show ?thesis by (simp add: scheduled_Cons Let_def Cons.IH)
  qed
qed

lemma test_loop_calls:
  "calls (snd (test_loop env v tr st)) =
     calls st @ map cmd (take (Suc (length (completed env (length (calls st)) tr))) tr)"
proof (induction tr arbitrary: st)
  case Nil
  show ?case by (simp add: completed_def scheduled_Nil)
next
  case (Cons entry rest)
  show ?case
  proof (cases "subprocess_call env (length (calls st)) (cmd entry)")
    case KeyboardInterrupt
    then show ?thesis by (simp add: completed_def scheduled_Cons Let_def)
  next
    case (Returned c outp)
    then show ?thesis by (simp add: completed_def scheduled_Cons Let_def Cons.IH)
  qed
qed

lemma test_loop_failures:
  "failures (snd (test_loop env v tr st)) =
     failures st @ map (name \<circ> fst) (filter (is_failure \<circ> snd)
                     (zip tr (completed env (length (calls st)) tr)))"
proof (induction tr arbitrary: st)
  case Nil
  show ?case by simp
next
  case (Cons entry rest)
  show ?case
  proof (cases "subprocess_call env (length (calls st)) (cmd entry)")
    case KeyboardInterrupt
    then show ?thesis by (simp add: completed_def scheduled_Cons Let_def)
  next
    case (Returned c outp)
    then show ?thesis by (simp add: completed_def scheduled_Cons Let_def Cons.IH is_failure_def)
  qed
qed

lemma loop_from_start:
  "fst (test_loop env v tr (st0 p)) = interrupted_run env tr"
  "calls (snd (test_loop env v tr (st0 p))) = map cmd (started env tr)"
  "failures (snd (test_loop env v tr (st0 p))) = failed_names env tr"
  by (simp_all add: test_loop_interrupted test_loop_calls test_loop_failures st0_def
        interrupted_run_def started_def failed_names_def)

lemma failed_names_empty: "(failed_names env tr = []) = (\<not> any_failed env tr)"
proof -
  have "map snd (zip tr (completed env 0 tr)) = completed env 0 tr"
    using length_completed [of env 0 tr] by (simp add: map_snd_zip_take)
  then have "set (completed env 0 tr) = snd ` set (zip tr (completed env 0 tr))"
    by (metis set_map)
  then show ?thesis
    by (auto simp: failed_names_def any_failed_def filter_empty_conv)
qed

lemma coverage_report_raises:
  "(coverage_report env v b a = Inl e) = (a = None \<and> e = TypeError)"
  by (cases a) (auto simp: coverage_report_def)

lemma command_unfold:
  assumes "to_run_for (IS_RUNNING_IN_DOCKER env) names = Inr to_run"
  shows "command env v names =
     (let r = test_loop env v to_run
                (st0 (print_with_rainbow_colors ASCII_ART_LOGO
                      @ running_message (IS_RUNNING_IN_DOCKER env) v to_run));
          out1 = printed (snd r)
                 @ (if interrupted_run env to_run then echo v ''Aborting test run.'' 0 True None
                    else [])
                 @ report_failure_outputs v (failed_names env to_run) (failure_outputs (snd r))
                 @ report_failing_tests v (failed_names env to_run);
          code = (if any_failed env to_run \<or> interrupted_run env to_run then 1 else 0)
      in if reports_coverage to_run
         then (case coverage_report env v (coverage_before_run env)
                      (coverage_after_run env to_run) of
                 Inl e \<Rightarrow> \<lparr>outcome = Raised e, stdout = out1,
                           invoked = map cmd (started env to_run)\<rparr>
               | Inr lines \<Rightarrow> \<lparr>outcome = Exit code, stdout = out1 @ lines,
                               invoked = map cmd (started env to_run)\<rparr>)
         else \<lparr>outcome = Exit code, stdout = out1, invoked = map cmd (started env to_run)\<rparr>)"
proof -
  define p where "p = print_with_rainbow_colors ASCII_ART_LOGO
                      @ running_message (IS_RUNNING_IN_DOCKER env) v to_run"
  obtain i st where r: "test_loop env v to_run (st0 p) = (i, st)"
    by (cases "test_loop env v to_run (st0 p)")
  from loop_from_start [of env v to_run p, unfolded r]
  have i: "i = interrupted_run env to_run"
    and c: "calls st = map cmd (started env to_run)"
    and f: "failures st = failed_names env to_run"
    by simp_all
  have len: "length (calls st) = length (started env to_run)"
    by (simp add: c)
  show ?thesis
    unfolding command_def Let_def assms sum.case p_def[symmetric] r
    by (simp add: i c f len coverage_before_run_def coverage_after_run_def
          failed_names_empty split: sum.splits)
qed

subsection \<open>Names of test types\<close>

lemma names_of_TESTTYPES: "map name (TESTTYPES d) = known_names"
  by (simp add: TESTTYPES_def known_names_def)

lemma known_set: "set known_names = name ` set (TESTTYPES d)"
  by (metis names_of_TESTTYPES set_map)

lemma all_names: "get_testtype_names d None '', '' = ''flake8, eslint, bandit, py.test, jest''"
  by (simp add: get_testtype_names_def TESTTYPES_def)

lemma get_testtype_unknown:
  "n \<notin> set known_names \<Longrightarrow>
     get_testtype d n = Inl (CommandError ([CHR 0x22] @ n @ [CHR 0x22]
        @ '' is not a valid test type. Please choose from flake8, eslint, bandit, py.test, jest.''))"
proof -
  assume "n \<notin> set known_names"
  then have "filter (\<lambda>t. name t = n) (TESTTYPES d) = []"
    by (auto simp: filter_empty_conv known_set [of d])
  then show ?thesis
    by (simp add: get_testtype_def all_names)
qed

lemma get_testtype_known:
  "n \<in> set known_names \<Longrightarrow> \<exists>t. get_testtype d n = Inr t \<and> name t = n \<and> t \<in> set (TESTTYPES d)"
proof -
  assume "n \<in> set known_names"
  then have "filter (\<lambda>t. name t = n) (TESTTYPES d) \<noteq> []"
    by (auto simp: filter_empty_conv known_set [of d])
  then obtain t ts where f: "filter (\<lambda>t. name t = n) (TESTTYPES d) = t # ts"
    by (cases "filter (\<lambda>t. name t = n) (TESTTYPES d)") auto
  then have "t \<in> set (filter (\<lambda>t. name t = n) (TESTTYPES d))" by simp
  then have "name t = n \<and> t \<in> set (TESTTYPES d)" by simp
  with f show ?thesis by (simp add: get_testtype_def)
qed

lemma get_testtypes_unknown:
  "List.find (\<lambda>n. n \<notin> set known_names) names = Some bad \<Longrightarrow>
     get_testtypes d names = Inl (CommandError ([CHR 0x22] @ bad @ [CHR 0x22]
        @ '' is not a valid test type. Please choose from flake8, eslint, bandit, py.test, jest.''))"
proof (induction names)
  case Nil
  then show ?case by simp
next
  case (Cons n ns)
  show ?case
  proof (cases "n \<in> set known_names")
    case True
    with Cons.prems have "List.find (\<lambda>n. n \<notin> set known_names) ns = Some bad" by simp
    from Cons.IH [OF this] get_testtype_known [OF True, of d] show ?thesis by auto
  next
    case False
    with Cons.prems have "bad = n" by simp
    with get_testtype_unknown [OF False, of d] show ?thesis by simp
  qed
qed

lemma get_testtypes_known:
  "set names \<subseteq> set known_names \<Longrightarrow>
     \<exists>tr. get_testtypes d names = Inr tr \<and> map name tr = names \<and> set tr \<subseteq> set (TESTTYPES d)"
proof (induction names)
  case Nil
  then show ?case by simp
next
  case (Cons n ns)
  then have "n \<in> set known_names" and "set ns \<subseteq> set known_names" by simp_all
  from get_testtype_known [OF this(1), of d] Cons.IH [OF this(2)] show ?case by auto
qed

subsection \<open>Exit code\<close>

text \<open>
  Claim C1, as amended. For every invocation whose names are all known test types (or that
  names none) and whose coverage step, if there is one, finds a branch rate after the run,
  the command ends in \<open>sys.exit\<close> with code \<open>1\<close> if a subprocess that was run returned a
  non-zero status or the run was interrupted by Ctrl-C, and with code \<open>0\<close> otherwise.
\<close>

theorem exit_code_of_completed_command:
  assumes "to_run_for (IS_RUNNING_IN_DOCKER env) names = Inr to_run"
    and "reports_coverage to_run \<longrightarrow> coverage_after_run env to_run \<noteq> None"
  shows "outcome (command env v names) =
           Exit (if any_failed env to_run \<or> interrupted_run env to_run then 1 else 0)"
proof (cases "reports_coverage to_run")
  case False
  then show ?thesis by (simp add: command_unfold [OF assms(1)] Let_def)
next
  case True
  with assms(2) obtain a where a: "coverage_after_run env to_run = Some a" by auto
  obtain ls where "coverage_report env v (coverage_before_run env) (Some a) = Inr ls"
    by (simp add: coverage_report_def)
  with True a show ?thesis by (simp add: command_unfold [OF assms(1)] Let_def)
qed

text \<open>The definitions that evaluate a run on a sample environment.\<close>

lemmas run_defs =
  to_run_for_def get_testtype_def TESTTYPES_def ESLINT_CMD_def reports_coverage_def
  TESTTYPES_TO_REPORT_COVERAGE_ON_def coverage_after_run_def coverage_before_run_def started_def
  completed_def scheduled_def get_coverage_def read_branch_rate_def coverage_doc_def
  find_packages_package_def find_child_def sample_float_def sample_percent_def any_failed_def
  interrupted_run_def is_failure_def failed_names_def
  env_pass_def env_missing_def env_zero_before_def env_nan_before_def env_first_fails_def

text \<open>
  The theorem at two runs of \<open>flake8\<close> and \<open>py.test\<close>: with a failing first tool the code is
  \<open>1\<close>, with passing tools it is \<open>0\<close>.
\<close>

theorem exit_code_of_completed_command_witness:
  "outcome (command env_first_fails 1 [''flake8'', ''py.test'']) = Exit 1
   \<and> outcome (command env_pass 1 [''flake8'', ''py.test'']) = Exit 0"
  using exit_code_of_completed_command [of env_first_fails "[''flake8'', ''py.test'']"
          "[\<lparr>name = ''flake8'', cmd = ''flake8 --exclude=node_modules,migrations .''\<rparr>,
            \<lparr>name = ''py.test'', cmd = ''py.test --cov-report xml --cov-report term --cov''\<rparr>]" 1]
        exit_code_of_completed_command [of env_pass "[''flake8'', ''py.test'']"
          "[\<lparr>name = ''flake8'', cmd = ''flake8 --exclude=node_modules,migrations .''\<rparr>,
            \<lparr>name = ''py.test'', cmd = ''py.test --cov-report xml --cov-report term --cov''\<rparr>]" 1]
  by (simp add: run_defs)

text \<open>
  Claim C1 as first stated covers every invocation. With an unknown name no subprocess is
  run and nothing interrupts, yet the command does not exit with \<open>0\<close>: it raises
  \<open>CommandError\<close>. With \<open>py.test\<close> passing and no readable \<open>coverage.xml\<close> after the run it
  raises \<open>TypeError\<close> instead of exiting with \<open>0\<close>.
\<close>

theorem exit_code_counterexample:
  "invoked (command env_pass 1 [''nope'']) = []
   \<and> outcome (command env_pass 1 [''nope'']) =
       Raised (CommandError ([CHR 0x22] @ ''nope'' @ [CHR 0x22]
         @ '' is not a valid test type. Please choose from flake8, eslint, bandit, py.test, jest.''))
   \<and> invoked (command env_missing 1 [''py.test'']) = [''py.test --cov-report xml --cov-report term --cov'']
   \<and> subprocess_call env_missing 0 ''py.test --cov-report xml --cov-report term --cov'' = Returned 0 []
   \<and> outcome (command env_missing 1 [''py.test'']) = Raised TypeError"
  by (simp add: command_def Let_def run_defs get_testtype_names_def st0_def split_def
        coverage_report_def)


subsection \<open>Failures do not stop the run\<close>

lemma started_all: "\<not> interrupted_run env tr \<Longrightarrow> started env tr = tr"
proof -
  assume "\<not> interrupted_run env tr"
  then have "completed env 0 tr = scheduled env 0 tr"
    by (auto simp: interrupted_run_def completed_def takeWhile_eq_all_conv)
  then show ?thesis by (simp add: started_def length_scheduled)
qed

lemma failing_report_printed:
  assumes "to_run_for (IS_RUNNING_IN_DOCKER env) names = Inr to_run" and "0 \<le> v"
    and "any_failed env to_run"
  shows "Secho (''Failing tests: '' @ join '', '' (failed_names env to_run)) True None
           \<in> set (stdout (command env v names))"
proof -
  from assms(3) have "failed_names env to_run \<noteq> []" by (simp add: failed_names_empty)
  with assms(2) have "Secho (''Failing tests: '' @ join '', '' (failed_names env to_run)) True None
      \<in> set (report_failing_tests v (failed_names env to_run))"
    by (simp add: report_failing_tests_def echo_def)
  then show ?thesis
    by (simp add: command_unfold [OF assms(1)] Let_def split: sum.splits)
qed

lemma outcome_cases:
  assumes "to_run_for (IS_RUNNING_IN_DOCKER env) names = Inr to_run"
  shows "outcome (command env v names) =
           Exit (if any_failed env to_run \<or> interrupted_run env to_run then 1 else 0)
         \<or> outcome (command env v names) = Raised TypeError"
  by (auto simp: command_unfold [OF assms(1)] Let_def coverage_report_raises split: sum.splits)

text \<open>
  Claim C2. For every requested list of known test types, the subprocesses run are those of
  \<open>started\<close>, which is cut only by a Ctrl-C and never by an exit status; without a Ctrl-C
  every requested tool is run. When some tool failed, the names of all failed tools are
  printed in the line \<open>Failing tests: ...\<close> and the command does not exit with \<open>0\<close>: it exits
  with \<open>1\<close>, unless the coverage step raises first. The report is echoed at level \<open>0\<close>, so
  the verbosity is taken to be non-negative, as the command-line option has it.
\<close>

theorem failures_do_not_stop_the_run:
  assumes "to_run_for (IS_RUNNING_IN_DOCKER env) names = Inr to_run" and "0 \<le> v"
  shows "invoked (command env v names) = map cmd (started env to_run)
       \<and> (\<not> interrupted_run env to_run \<longrightarrow> invoked (command env v names) = map cmd to_run)
       \<and> (any_failed env to_run \<longrightarrow>
            Secho (''Failing tests: '' @ join '', '' (failed_names env to_run)) True None
              \<in> set (stdout (command env v names))
            \<and> (outcome (command env v names) = Exit 1
               \<or> outcome (command env v names) = Raised TypeError))"
proof -
  have inv: "invoked (command env v names) = map cmd (started env to_run)"
    by (simp add: command_unfold [OF assms(1)] Let_def split: sum.splits)
  have all: "\<not> interrupted_run env to_run \<longrightarrow> invoked (command env v names) = map cmd to_run"
    by (simp add: inv started_all)
  have rep: "any_failed env to_run \<longrightarrow>
      Secho (''Failing tests: '' @ join '', '' (failed_names env to_run)) True None
        \<in> set (stdout (command env v names))"
    using failing_report_printed [OF assms] by simp
  have ex: "any_failed env to_run \<longrightarrow>
      (outcome (command env v names) = Exit 1 \<or> outcome (command env v names) = Raised TypeError)"
    using outcome_cases [OF assms(1), of v] by auto
  from inv all rep ex show ?thesis by blast
qed

text \<open>
  The theorem at a run of all five names in which \<open>flake8\<close> fails: the other four tools are
  still run, the failure is reported and the exit code is \<open>1\<close>.
\<close>

theorem failures_do_not_stop_the_run_witness:
  "any_failed env_first_fails (TESTTYPES False)
   \<and> \<not> interrupted_run env_first_fails (TESTTYPES False)
   \<and> invoked (command env_first_fails 1 [''flake8'', ''eslint'', ''bandit'', ''py.test'', ''jest''])
       = [''flake8 --exclude=node_modules,migrations .'', ''npm run failable-eslint'',
          ''bandit -r .'', ''py.test --cov-report xml --cov-report term --cov'', ''npm test'']
   \<and> Secho ''Failing tests: flake8'' True None
       \<in> set (stdout (command env_first_fails 1 [''flake8'', ''eslint'', ''bandit'', ''py.test'', ''jest'']))
   \<and> outcome (command env_first_fails 1 [''flake8'', ''eslint'', ''bandit'', ''py.test'', ''jest''])
       = Exit 1"
proof -
  have t: "to_run_for (IS_RUNNING_IN_DOCKER env_first_fails)
             [''flake8'', ''eslint'', ''bandit'', ''py.test'', ''jest''] = Inr (TESTTYPES False)"
    by (simp add: run_defs)
  have a: "any_failed env_first_fails (TESTTYPES False)" by (simp add: run_defs)
  have i: "\<not> interrupted_run env_first_fails (TESTTYPES False)" by (simp add: run_defs)
  have f: "failed_names env_first_fails (TESTTYPES False) = [''flake8'']" by (simp add: run_defs)
  have c: "coverage_after_run env_first_fails (TESTTYPES False) \<noteq> None" by (simp add: run_defs)
  have m: "map cmd (TESTTYPES False) = [''flake8 --exclude=node_modules,migrations .'', ''npm run failable-eslint'',
          ''bandit -r .'', ''py.test --cov-report xml --cov-report term --cov'', ''npm test'']"
    by (simp add: run_defs)
  have r: "coverage_report env_first_fails 1 (coverage_before_run env_first_fails) (coverage_after_run env_first_fails (TESTTYPES False)) \<noteq> Inl TypeError"
    using c by (simp add: coverage_report_raises)
  have e: "outcome (command env_first_fails 1 [''flake8'', ''eslint'', ''bandit'', ''py.test'', ''jest'']) \<noteq> Raised TypeError"
    using c by (auto simp: command_unfold [OF t] Let_def coverage_report_raises split: sum.splits)
  have v: "(0::int) \<le> 1" by simp
  from failures_do_not_stop_the_run [OF t v] a i
  have r1: "invoked (command env_first_fails 1 [''flake8'', ''eslint'', ''bandit'', ''py.test'', ''jest''])
             = map cmd (TESTTYPES False)"
    and r2: "Secho (''Failing tests: '' @ join '', '' (failed_names env_first_fails (TESTTYPES False)))
              True None
            \<in> set (stdout (command env_first_fails 1
                              [''flake8'', ''eslint'', ''bandit'', ''py.test'', ''jest'']))"
    and r3: "outcome (command env_first_fails 1 [''flake8'', ''eslint'', ''bandit'', ''py.test'', ''jest''])
              = Exit 1
            \<or> outcome (command env_first_fails 1
                            [''flake8'', ''eslint'', ''bandit'', ''py.test'', ''jest''])
              = Raised TypeError"
    by blast+
  from r2 have r2': "Secho ''Failing tests: flake8'' True None
            \<in> set (stdout (command env_first_fails 1
                              [''flake8'', ''eslint'', ''bandit'', ''py.test'', ''jest'']))"
    by (simp add: f)
  from a i r1 r2' r3 e m show ?thesis by simp
qed

subsection \<open>Unknown names\<close>

text \<open>
  Claim C3. For every invocation whose arguments include a name that is not one of the
  five known test types, the command ends with the \<open>CommandError\<close> of the first such
  name, whose message lists the five valid choices; no subprocess has been started and
  nothing but the logo has been printed.
\<close>

theorem unknown_name_is_fatal:
  assumes "\<not> set names \<subseteq> set known_names"
  shows "\<exists>bad. List.find (\<lambda>n. n \<notin> set known_names) names = Some bad
           \<and> outcome (command env v names) =
               Raised (CommandError ([CHR 0x22] @ bad @ [CHR 0x22]
                 @ '' is not a valid test type. Please choose from flake8, eslint, bandit, py.test, jest.''))
           \<and> invoked (command env v names) = []
           \<and> stdout (command env v names) = print_with_rainbow_colors ASCII_ART_LOGO"
proof -
  from assms obtain bad where b: "List.find (\<lambda>n. n \<notin> set known_names) names = Some bad"
    by (cases "List.find (\<lambda>n. n \<notin> set known_names) names") (auto simp: find_None_iff)
  from assms have ne: "names \<noteq> []" by auto
  from get_testtypes_unknown [OF b, of "IS_RUNNING_IN_DOCKER env"] ne
  have "to_run_for (IS_RUNNING_IN_DOCKER env) names =
          Inl (CommandError ([CHR 0x22] @ bad @ [CHR 0x22]
                 @ '' is not a valid test type. Please choose from flake8, eslint, bandit, py.test, jest.''))"
    by (simp add: to_run_for_def)
  then show ?thesis using b by (simp add: command_def Let_def)
qed

text \<open>The theorem at the names \<open>flake8 mocha jest\<close>: \<open>mocha\<close> is reported, \<open>flake8\<close> is not run.\<close>

theorem unknown_name_is_fatal_witness:
  "outcome (command env_pass 1 [''flake8'', ''mocha'', ''jest'']) =
     Raised (CommandError ([CHR 0x22] @ ''mocha'' @ [CHR 0x22]
       @ '' is not a valid test type. Please choose from flake8, eslint, bandit, py.test, jest.''))
   \<and> invoked (command env_pass 1 [''flake8'', ''mocha'', ''jest'']) = []"
  using unknown_name_is_fatal [of "[''flake8'', ''mocha'', ''jest'']" env_pass 1]
  by (simp add: known_names_def)

subsection \<open>No arguments\<close>

text \<open>
  Claim C6. Invoked with no test-type argument, the command takes \<open>TESTTYPES\<close> as the list
  to run, whose names are flake8, eslint, bandit, py.test, jest in this order; it starts
  their commands in this order, all five of them unless a Ctrl-C cuts the run.
\<close>

theorem no_argument_runs_all_five:
  "to_run_for (IS_RUNNING_IN_DOCKER env) [] = Inr (TESTTYPES (IS_RUNNING_IN_DOCKER env))
   \<and> map name (TESTTYPES (IS_RUNNING_IN_DOCKER env))
       = [''flake8'', ''eslint'', ''bandit'', ''py.test'', ''jest'']
   \<and> invoked (command env v []) = map cmd (started env (TESTTYPES (IS_RUNNING_IN_DOCKER env)))
   \<and> (\<not> interrupted_run env (TESTTYPES (IS_RUNNING_IN_DOCKER env)) \<longrightarrow>
        invoked (command env v []) = map cmd (TESTTYPES (IS_RUNNING_IN_DOCKER env)))"
proof -
  have t: "to_run_for (IS_RUNNING_IN_DOCKER env) [] = Inr (TESTTYPES (IS_RUNNING_IN_DOCKER env))"
    by (simp add: to_run_for_def)
  have inv: "invoked (command env v []) = map cmd (started env (TESTTYPES (IS_RUNNING_IN_DOCKER env)))"
    by (simp add: command_unfold [OF t] Let_def split: sum.splits)
  from t inv show ?thesis
    by (simp add: started_all names_of_TESTTYPES known_names_def)
qed

text \<open>The theorem at a run without interrupt: the five commands, in order.\<close>

theorem no_argument_runs_all_five_witness:
  "\<not> interrupted_run env_pass (TESTTYPES False)
   \<and> invoked (command env_pass 1 []) =
       [''flake8 --exclude=node_modules,migrations .'', ''npm run failable-eslint'',
        ''bandit -r .'', ''py.test --cov-report xml --cov-report term --cov'', ''npm test'']"
proof -
  have i: "\<not> interrupted_run env_pass (TESTTYPES False)" by (simp add: run_defs)
  have d: "IS_RUNNING_IN_DOCKER env_pass = False" by (simp add: env_pass_def)
  have m: "map cmd (TESTTYPES False) =
       [''flake8 --exclude=node_modules,migrations .'', ''npm run failable-eslint'',
        ''bandit -r .'', ''py.test --cov-report xml --cov-report term --cov'', ''npm test'']"
    by (simp add: TESTTYPES_def ESLINT_CMD_def)
  from no_argument_runs_all_five [of env_pass 1, unfolded d] i
  have "invoked (command env_pass 1 []) = map cmd (TESTTYPES False)"
    by blast
  with i m show ?thesis by simp
qed

subsection \<open>Coverage\<close>

text \<open>
  Each way in which reading \<open>coverage.xml\<close> fails gives \<open>None\<close>, silently.
\<close>

lemma get_coverage_failures:
  "get_coverage f NoSuchFile = None"
  "get_coverage f NotWellFormed = None"
  "find_packages_package r = None \<Longrightarrow> get_coverage f (Document r) = None"
  "find_packages_package r = Some p \<Longrightarrow> map_of (attrib p) ''branch-rate'' = None \<Longrightarrow>
     get_coverage f (Document r) = None"
  "find_packages_package r = Some p \<Longrightarrow> map_of (attrib p) ''branch-rate'' = Some s \<Longrightarrow>
     f s = None \<Longrightarrow> get_coverage f (Document r) = None"
  by (simp_all add: get_coverage_def read_branch_rate_def)

text \<open>
  Claim C4 fails on the code. The value read before the run is guarded by
  \<open>if coverage_before:\<close>; the value read after the run is formatted without a guard. In
  a run of \<open>py.test\<close> that passes while \<open>coverage.xml\<close> does not exist, the command raises
  \<open>TypeError\<close>; the same run with a readable file exits with \<open>0\<close>.
\<close>

theorem coverage_failure_after_run_raises:
  "reports_coverage [\<lparr>name = ''py.test'', cmd = ''py.test --cov-report xml --cov-report term --cov''\<rparr>]
   \<and> get_coverage (py_float env_missing) (coverage_xml env_missing 0) = None
   \<and> get_coverage (py_float env_missing) (coverage_xml env_missing 1) = None
   \<and> subprocess_call env_missing 0 ''py.test --cov-report xml --cov-report term --cov''
       = Returned 0 []
   \<and> outcome (command env_missing 1 [''py.test'']) = Raised TypeError
   \<and> outcome (command env_pass 1 [''py.test'']) = Exit 0"
  by (simp add: command_def Let_def run_defs get_testtype_names_def st0_def split_def
        coverage_report_def running_message_def truthy_def echo_def report_failing_tests_def
        report_failure_outputs_def)


text \<open>
  Claim C5, as amended. For every run of known test types that includes \<open>py.test\<close>, at
  verbosity \<open>1\<close> or more, when the branch rate read before the run is present, finite and
  not zero and the branch rate read after the run is present and finite, the last two
  things printed are the coverage after the run and the difference of the two rates:
  signed when they differ, \<open>(same as last run)\<close> when they are equal. The sign of the
  difference of two finite floats is the sign of the difference of the reals they denote.
\<close>

theorem coverage_delta_printed:
  assumes "to_run_for (IS_RUNNING_IN_DOCKER env) names = Inr to_run"
    and "reports_coverage to_run"
    and "1 \<le> v"
    and "coverage_before_run env = Some (Finite b)" and "b \<noteq> 0"
    and "coverage_after_run env to_run = Some (Finite a)"
  shows "\<exists>pre. stdout (command env v names) =
           pre @ [Secho (''Coverage: '' @ format_percent env (Finite a)) False None,
                  (if a < b
                   then Secho ('' ('' @ format_percent env (Finite (a - b)) @ '' from last run)'')
                          True (Some ''red'')
                   else if a > b
                   then Secho ('' (+'' @ format_percent env (Finite (a - b)) @ '' from last run)'')
                          True (Some ''green'')
                   else Secho '' (same as last run)'' True None)]"
proof -
  have r: "coverage_report env v (Some (Finite b)) (Some (Finite a)) =
      Inr [Secho (''Coverage: '' @ format_percent env (Finite a)) False None,
                  (if a < b
                   then Secho ('' ('' @ format_percent env (Finite (a - b)) @ '' from last run)'')
                          True (Some ''red'')
                   else if a > b
                   then Secho ('' (+'' @ format_percent env (Finite (a - b)) @ '' from last run)'')
                          True (Some ''green'')
                   else Secho '' (same as last run)'' True None)]"
    using assms(3,5) by (simp add: coverage_report_def truthy_def echo_def Let_def)
  show ?thesis
    unfolding command_unfold [OF assms(1)] Let_def
    by (simp add: assms(2,4,6) r del: append_assoc)
qed

text \<open>The theorem at a run in which the rate rises from 50% to 75%.\<close>

theorem coverage_delta_printed_witness:
  "coverage_before_run env_pass = Some (Finite (1 / 2))
   \<and> coverage_after_run env_pass
        [\<lparr>name = ''py.test'', cmd = ''py.test --cov-report xml --cov-report term --cov''\<rparr>]
      = Some (Finite (3 / 4))
   \<and> (\<exists>pre. stdout (command env_pass 1 [''py.test'']) =
         pre @ [Secho ''Coverage: 75.00%'' False None,
                Secho '' (+25.00% from last run)'' True (Some ''green'')])"
proof -
  have t: "to_run_for (IS_RUNNING_IN_DOCKER env_pass) [''py.test''] =
       Inr [\<lparr>name = ''py.test'', cmd = ''py.test --cov-report xml --cov-report term --cov''\<rparr>]"
    by (simp add: run_defs)
  have c: "reports_coverage
        [\<lparr>name = ''py.test'', cmd = ''py.test --cov-report xml --cov-report term --cov''\<rparr>]"
    by (simp add: run_defs)
  have v: "(1::int) \<le> 1" by simp
  have b: "coverage_before_run env_pass = Some (Finite (1 / 2))" by (simp add: run_defs)
  have nz: "(1 / 2 :: real) \<noteq> 0" by simp
  have a: "coverage_after_run env_pass
        [\<lparr>name = ''py.test'', cmd = ''py.test --cov-report xml --cov-report term --cov''\<rparr>]
      = Some (Finite (3 / 4))" by (simp add: run_defs)
  have f: "format_percent env_pass (Finite (3 / 4)) = ''75.00%''"
    "format_percent env_pass (Finite (1 / 4)) = ''25.00%''"
    by (simp_all add: env_pass_def sample_percent_def)
  from coverage_delta_printed [OF t c v b nz a] b a show ?thesis
    by (simp add: f)
qed

text \<open>
  Claim C5 as first stated fails three times. At verbosity \<open>0\<close> nothing about the coverage
  is printed, since \<open>echo\<close> is called with level \<open>1\<close>. At verbosity \<open>1\<close> with a rate of
  \<open>0\<close> before the run, which is present but not truthy, the coverage is printed with no
  difference. With a rate before the run that reads as \<open>nan\<close>, which is present and truthy,
  \<open>(same as last run)\<close> is printed although the two rates differ, since no comparison with
  the difference \<open>nan\<close> holds.
\<close>

theorem coverage_delta_counterexample:
  "coverage_before_run env_pass = Some (Finite (1 / 2))
   \<and> coverage_after_run env_pass
        [\<lparr>name = ''py.test'', cmd = ''py.test --cov-report xml --cov-report term --cov''\<rparr>]
      = Some (Finite (3 / 4))
   \<and> stdout (command env_pass 0 [''py.test'']) = print_with_rainbow_colors ASCII_ART_LOGO
   \<and> coverage_before_run env_zero_before = Some (Finite 0)
   \<and> coverage_after_run env_zero_before
        [\<lparr>name = ''py.test'', cmd = ''py.test --cov-report xml --cov-report term --cov''\<rparr>]
      = Some (Finite (3 / 4))
   \<and> stdout (command env_zero_before 1 [''py.test'']) =
       print_with_rainbow_colors ASCII_ART_LOGO
       @ [Secho ''Running py.test'' True None, Secho ''-> py.test '' False None,
          Secho ''OK'' True (Some ''green''), Secho ''Coverage: 75.00%'' True None]
   \<and> coverage_before_run env_nan_before = Some NaN
   \<and> coverage_after_run env_nan_before
        [\<lparr>name = ''py.test'', cmd = ''py.test --cov-report xml --cov-report term --cov''\<rparr>]
      = Some (Finite (3 / 4))
   \<and> stdout (command env_nan_before 1 [''py.test'']) =
       print_with_rainbow_colors ASCII_ART_LOGO
       @ [Secho ''Running py.test'' True None, Secho ''-> py.test '' False None,
          Secho ''OK'' True (Some ''green''), Secho ''Coverage: 75.00%'' False None,
          Secho '' (same as last run)'' True None]"
  by (simp add: command_def Let_def run_defs get_testtype_names_def st0_def split_def
        coverage_report_def running_message_def truthy_def echo_def report_failing_tests_def
        report_failure_outputs_def)

section \<open>Properties of the admin module\<close>

subsection \<open>Read-only once approved\<close>

text \<open>
  Claim C7. For every price list, the change form and its row inline make read-only the
  full list of their fields when the status is APPROVED, and only their designated
  read-only fields for any other status.
\<close>

theorem readonly_once_approved:
  "BaseSubmittedPriceListAdmin_get_readonly_fields request (Some obj) =
     (if status obj = STATUS_APPROVED then BaseSubmittedPriceListAdmin_fields
      else BaseSubmittedPriceListAdmin_readonly_fields)
   \<and> SubmittedPriceListRowInline_get_readonly_fields request (Some obj) =
     (if status obj = STATUS_APPROVED then SubmittedPriceListRowInline_fields
      else SubmittedPriceListRowInline_readonly_fields)"
  by (simp add: BaseSubmittedPriceListAdmin_get_readonly_fields_def
        SubmittedPriceListRowInline_get_readonly_fields_def)

text \<open>The theorem at an approved and at a new price list.\<close>

theorem readonly_once_approved_witness:
  "BaseSubmittedPriceListAdmin_get_readonly_fields () (Some \<lparr>pk = 2, status = STATUS_APPROVED\<rparr>)
     = BaseSubmittedPriceListAdmin_fields
   \<and> SubmittedPriceListRowInline_get_readonly_fields () (Some \<lparr>pk = 2, status = STATUS_APPROVED\<rparr>)
     = [''labor_category'', ''education_level'', ''min_years_experience'', ''base_year_rate'',
        ''sin'', ''is_muted'']
   \<and> BaseSubmittedPriceListAdmin_get_readonly_fields () (Some \<lparr>pk = 1, status = STATUS_NEW\<rparr>)
     = [''schedule_title'', ''created_at'', ''updated_at'', ''current_status'', ''submitter'',
        ''status_changed_at'', ''status_changed_by'']
   \<and> SubmittedPriceListRowInline_get_readonly_fields () (Some \<lparr>pk = 1, status = STATUS_NEW\<rparr>)
     = []"
  using readonly_once_approved [of "()" "\<lparr>pk = 2, status = STATUS_APPROVED\<rparr>"]
        readonly_once_approved [of "()" "\<lparr>pk = 1, status = STATUS_NEW\<rparr>"]
  by (simp add: SubmittedPriceListRowInline_fields_def
        SubmittedPriceListRowInline_readonly_fields_def
        BaseSubmittedPriceListAdmin_readonly_fields_def)

subsection \<open>No deletion, no addition\<close>

text \<open>
  Claim C10. For every request and object, \<open>has_delete_permission\<close> and the three
  \<open>has_add_permission\<close> return \<open>False\<close>. The actions that \<open>get_actions\<close> returns are those
  of the framework without \<open>delete_selected\<close>, in every case in which it returns, and it
  returns whenever the framework's actions hold \<open>delete_selected\<close>.
\<close>

theorem no_deletion_no_addition:
  "UndeletableModelAdmin_has_delete_permission request obj = False
   \<and> BaseSubmittedPriceListAdmin_has_add_permission request = False
   \<and> SubmittedPriceListRowAdmin_has_add_permission request = False
   \<and> SubmittedPriceListRowInline_has_add_permission request = False
   \<and> (\<forall>actions. UndeletableModelAdmin_get_actions super_actions = Inr actions \<longrightarrow>
         ''delete_selected'' \<notin> fst ` set actions
         \<and> actions = filter (\<lambda>(k, a). k \<noteq> ''delete_selected'') super_actions)
   \<and> (''delete_selected'' \<in> fst ` set super_actions \<longrightarrow>
         (\<exists>actions. UndeletableModelAdmin_get_actions super_actions = Inr actions))"
  by (auto simp: UndeletableModelAdmin_has_delete_permission_def
        BaseSubmittedPriceListAdmin_has_add_permission_def
        SubmittedPriceListRowAdmin_has_add_permission_def
        SubmittedPriceListRowInline_has_add_permission_def
        UndeletableModelAdmin_get_actions_def)

text \<open>The theorem at the actions of the screen of new price lists.\<close>

theorem no_deletion_no_addition_witness:
  "UndeletableModelAdmin_get_actions
      [(''delete_selected'', ''Delete selected price lists''),
       (''approve'', ''Approve selected price lists (add their data to CALC)''),
       (''reject'', ''Reject selected price lists'')]
     = Inr [(''approve'', ''Approve selected price lists (add their data to CALC)''),
            (''reject'', ''Reject selected price lists'')]
   \<and> \<not> UndeletableModelAdmin_has_delete_permission () (Some \<lparr>pk = 1, status = STATUS_NEW\<rparr>)
   \<and> \<not> BaseSubmittedPriceListAdmin_has_add_permission ()"
proof -
  let ?super = "[(''delete_selected'', ''Delete selected price lists''),
       (''approve'', ''Approve selected price lists (add their data to CALC)''),
       (''reject'', ''Reject selected price lists'')]"
  have p: "''delete_selected'' \<in> fst ` set ?super" by simp
  from no_deletion_no_addition [of "()" "Some \<lparr>pk = 1, status = STATUS_NEW\<rparr>" ?super] p
  obtain actions where a: "UndeletableModelAdmin_get_actions ?super = Inr actions"
    and f: "actions = filter (\<lambda>(k, a). k \<noteq> ''delete_selected'') ?super"
    and d: "\<not> UndeletableModelAdmin_has_delete_permission () (Some \<lparr>pk = 1, status = STATUS_NEW\<rparr>)"
    and b: "\<not> BaseSubmittedPriceListAdmin_has_add_permission ()"
    by blast
  from f have "actions = [(''approve'', ''Approve selected price lists (add their data to CALC)''),
            (''reject'', ''Reject selected price lists'')]" by simp
  with a d b show ?thesis by simp
qed

subsection \<open>Usernames\<close>

text \<open>The loop returns the first candidate that no user has, and none when all are taken.\<close>

lemma attempts_Some:
  "attempts b users i m = Some u \<Longrightarrow>
     \<exists>k. i \<le> k \<and> k < m \<and> u = candidate b k \<and> u \<notin> users
          \<and> (\<forall>j. i \<le> j \<and> j < k \<longrightarrow> candidate b j \<in> users)"
proof (induction b users i m rule: attempts.induct)
  case (1 basename users i max_attempts)
  show ?case
  proof (cases "candidate basename i \<in> users")
    case False
    with "1.prems" have "i < max_attempts" and "u = candidate basename i"
      by (auto simp: attempts.simps [of basename users i] candidate_def split: if_splits)
    with False show ?thesis by auto
  next
    case True
    with "1.prems" have lt: "i < max_attempts"
      and rec: "attempts basename users (Suc i) max_attempts = Some u"
      by (auto simp: attempts.simps [of basename users i] candidate_def split: if_splits)
    from True have "(if i = 0 then basename else basename @ str_nat i) \<in> users"
      by (simp add: candidate_def)
    from "1.IH" [OF lt refl _ rec] this
    obtain k where k: "Suc i \<le> k" "k < max_attempts" "u = candidate basename k" "u \<notin> users"
      "\<forall>j. Suc i \<le> j \<and> j < k \<longrightarrow> candidate basename j \<in> users"
      by auto
    have "\<forall>j. i \<le> j \<and> j < k \<longrightarrow> candidate basename j \<in> users"
    proof (intro allI impI)
      fix j assume "i \<le> j \<and> j < k"
      then show "candidate basename j \<in> users"
        using True k(5) by (cases "j = i") auto
    qed
    with k show ?thesis by (intro exI [of _ k]) auto
  qed
qed

lemma attempts_step:
  "attempts b users i m =
     (if i < m
      then (if candidate b i \<notin> users then Some (candidate b i)
            else attempts b users (Suc i) m)
      else None)"
  by (subst attempts.simps) (simp add: candidate_def Let_def)

lemma attempts_None:
  "(attempts b users i m = None) = (\<forall>k. i \<le> k \<and> k < m \<longrightarrow> candidate b k \<in> users)"
proof (induction b users i m rule: attempts.induct)
  case (1 basename users i max_attempts)
  show ?case
  proof (cases "i < max_attempts")
    case False
    then have "attempts basename users i max_attempts = None"
      by (subst attempts_step) simp
    moreover from False
    have "\<forall>k. i \<le> k \<and> k < max_attempts \<longrightarrow> candidate basename k \<in> users"
      by auto
    ultimately show ?thesis by blast
  next
    case lt: True
    show ?thesis
    proof (cases "candidate basename i \<in> users")
      case False
      with lt have "attempts basename users i max_attempts = Some (candidate basename i)"
        by (subst attempts_step) simp
      moreover from lt False
      have "\<not> (\<forall>k. i \<le> k \<and> k < max_attempts \<longrightarrow> candidate basename k \<in> users)"
        by blast
      ultimately show ?thesis by simp
    next
      case True
      with lt have step: "attempts basename users i max_attempts
                          = attempts basename users (Suc i) max_attempts"
        by (subst attempts_step) simp
      from True have c: "\<not> (if i = 0 then basename else basename @ str_nat i) \<notin> users"
        by (simp add: candidate_def)
      have ih: "(attempts basename users (Suc i) max_attempts = None)
            = (\<forall>k. Suc i \<le> k \<and> k < max_attempts \<longrightarrow> candidate basename k \<in> users)"
        by (rule "1.IH" [OF lt refl c])
      have "(\<forall>k. Suc i \<le> k \<and> k < max_attempts \<longrightarrow> candidate basename k \<in> users)
            = (\<forall>k. i \<le> k \<and> k < max_attempts \<longrightarrow> candidate basename k \<in> users)"
      proof
        assume h: "\<forall>k. Suc i \<le> k \<and> k < max_attempts \<longrightarrow> candidate basename k \<in> users"
        show "\<forall>k. i \<le> k \<and> k < max_attempts \<longrightarrow> candidate basename k \<in> users"
        proof (intro allI impI)
          fix k assume k: "i \<le> k \<and> k < max_attempts"
          show "candidate basename k \<in> users"
          proof (cases "k = i")
            case True
            with \<open>candidate basename i \<in> users\<close> show ?thesis by simp
          next
            case False
            with k have "Suc i \<le> k \<and> k < max_attempts" by arith
            with h show ?thesis by blast
          qed
        qed
      next
        assume h: "\<forall>k. i \<le> k \<and> k < max_attempts \<longrightarrow> candidate basename k \<in> users"
        show "\<forall>k. Suc i \<le> k \<and> k < max_attempts \<longrightarrow> candidate basename k \<in> users"
        proof (intro allI impI)
          fix k assume "Suc i \<le> k \<and> k < max_attempts"
          then have "i \<le> k \<and> k < max_attempts" by arith
          with h show "candidate basename k \<in> users" by blast
        qed
      qed
      with step ih show ?thesis by simp
    qed
  qed
qed

lemma str_nat_100: "str_nat 100 = ''100''"
  by (simp add: str_nat.simps)

text \<open>
  Claim C8, as amended. For every email address, \<open>generate_username\<close> returns a username
  that no existing user has: the first free one among the 100 candidates built on the
  first 15 characters of the slug of the part of the email before \<open>@\<close>, the candidate
  \<open>0\<close> being that base name and the candidates 1 to 99 the base name followed by the
  number. It returns whenever one of the candidates is free; when all 100 are taken it
  raises an exception.
\<close>

theorem generate_username_free:
  "(\<forall>username. generate_username slugify users email 100 = Inr username \<longrightarrow>
      username \<notin> users
      \<and> (\<exists>i<100. username = candidate (take 15 (slugify (local_part email))) i
                  \<and> (\<forall>j<i. candidate (take 15 (slugify (local_part email))) j \<in> users)))
   \<and> ((\<exists>i<100. candidate (take 15 (slugify (local_part email))) i \<notin> users) \<longrightarrow>
        (\<exists>username. generate_username slugify users email 100 = Inr username))
   \<and> ((\<forall>i<100. candidate (take 15 (slugify (local_part email))) i \<in> users) \<longrightarrow>
        generate_username slugify users email 100 =
          Inl (Exception (''unable to generate username for '' @ email
                          @ '' after 100 attempts'')))"
proof (intro conjI allI impI)
  fix username
  assume "generate_username slugify users email 100 = Inr username"
  then have "attempts (take 15 (slugify (local_part email))) users 0 100 = Some username"
    by (simp add: generate_username_def Let_def split: option.splits)
  from attempts_Some [OF this]
  show "username \<notin> users" 
    and "\<exists>i<100. username = candidate (take 15 (slugify (local_part email))) i
                  \<and> (\<forall>j<i. candidate (take 15 (slugify (local_part email))) j \<in> users)"
    by auto
next
  assume "\<exists>i<100. candidate (take 15 (slugify (local_part email))) i \<notin> users"
  then have "attempts (take 15 (slugify (local_part email))) users 0 100 \<noteq> None"
    by (auto simp: attempts_None)
  then show "\<exists>username. generate_username slugify users email 100 = Inr username"
    by (auto simp: generate_username_def Let_def)
next
  assume "\<forall>i<100. candidate (take 15 (slugify (local_part email))) i \<in> users"
  then have "attempts (take 15 (slugify (local_part email))) users 0 100 = None"
    by (simp add: attempts_None)
  then show "generate_username slugify users email 100 =
          Inl (Exception (''unable to generate username for '' @ email
                          @ '' after 100 attempts''))"
    by (simp add: generate_username_def Let_def str_nat_100)
qed


text \<open>The theorem where \<open>jdoe\<close> is taken: the username is \<open>jdoe1\<close>.\<close>

theorem generate_username_free_witness:
  "generate_username sample_slugify {''jdoe''} ''j.doe@gsa.gov'' 100 = Inr ''jdoe1''
   \<and> ''jdoe1'' \<notin> {''jdoe''}"
proof -
  have b: "take 15 (sample_slugify (local_part ''j.doe@gsa.gov'')) = ''jdoe''"
    by (simp add: sample_slugify_def local_part_def)
  have c0: "candidate ''jdoe'' 0 = ''jdoe''" by (simp add: candidate_def)
  have c1: "candidate ''jdoe'' (Suc 0) = ''jdoe1''" by (simp add: candidate_def str_nat.simps)
  have "Suc 0 < 100 \<and> candidate ''jdoe'' (Suc 0) \<notin> {''jdoe''}"
    unfolding c1 by simp
  then have free: "\<exists>i<100. candidate ''jdoe'' i \<notin> {''jdoe''}" by blast
  from generate_username_free [of sample_slugify "{''jdoe''}" "''j.doe@gsa.gov''", unfolded b] free
  obtain u i where u: "generate_username sample_slugify {''jdoe''} ''j.doe@gsa.gov'' 100 = Inr u"
    and nu: "u \<notin> {''jdoe''}" and i: "i < 100" "u = candidate ''jdoe'' i"
    and taken: "\<forall>j<i. candidate ''jdoe'' j \<in> {''jdoe''}"
    by blast
  have "i \<noteq> 0"
  proof
    assume "i = 0"
    with i(2) c0 have "u = ''jdoe''" by simp
    with nu show False by simp
  qed
  moreover have "\<not> Suc 0 < i"
  proof
    assume "Suc 0 < i"
    with taken have "candidate ''jdoe'' (Suc 0) \<in> {''jdoe''}" by blast
    then show False unfolding c1 by simp
  qed
  ultimately have "i = Suc 0" by simp
  with u i(2) c1 show ?thesis by simp
qed

text \<open>
  Claim C8 as first stated takes the slug of the first 15 characters. The code slices the
  slug: for \<open>maria.del.carmen.lopez\<close> and no user it returns the 15 characters
  \<open>mariadelcarmenl\<close>, while the slug of the first 15 characters is \<open>mariadelcarme\<close>.
\<close>

theorem generate_username_counterexample:
  "generate_username sample_slugify {} ''maria.del.carmen.lopez@gsa.gov'' 100
     = Inr ''mariadelcarmenl''
   \<and> claimed_basename sample_slugify ''maria.del.carmen.lopez@gsa.gov'' = ''mariadelcarme''"
  by (simp add: generate_username_def claimed_basename_def sample_slugify_def local_part_def
        attempts.simps [of _ _ 0])

subsection \<open>Bulk actions\<close>

text \<open>
  Saving the rows of a selection one after the other: with distinct primary keys each
  selected row is written once and no other row is touched.
\<close>

lemma find_other_pk:
  "pk p \<notin> pk ` set xs \<Longrightarrow> List.find (\<lambda>q. pk q = pk p) xs = None"
  unfolding find_None_iff by (metis imageI)

lemma foldl_save_price_lists:
  assumes "\<And>p. pk (f p) = pk p"
  shows "distinct (map pk xs) \<Longrightarrow>
     price_lists (foldl (\<lambda>s p. s\<lparr>price_lists := save (f p) (price_lists s),
                                   outbox := outbox s @ [n (pk p)]\<rparr>) s xs)
     = map (\<lambda>r. case List.find (\<lambda>p. pk p = pk r) xs of Some p \<Rightarrow> f p | None \<Rightarrow> r)
           (price_lists s)"
proof (induction xs arbitrary: s)
  case Nil
  show ?case by simp
next
  case (Cons p xs)
  let ?step = "\<lambda>s p. s\<lparr>price_lists := save (f p) (price_lists s),
                          outbox := outbox s @ [n (pk p)]\<rparr>"
  let ?g = "\<lambda>r. if pk r = pk p then f p else r"
  let ?h = "\<lambda>r. case List.find (\<lambda>q. pk q = pk r) xs of Some q \<Rightarrow> f q | None \<Rightarrow> r"
  let ?h' = "\<lambda>r. case List.find (\<lambda>q. pk q = pk r) (p # xs) of Some q \<Rightarrow> f q | None \<Rightarrow> r"
  from Cons.prems have d: "distinct (map pk xs)" and np: "pk p \<notin> pk ` set xs" by auto
  have first: "price_lists (?step s p) = map ?g (price_lists s)"
    by (simp add: save_def assms)
  have "price_lists (foldl ?step s (p # xs)) = price_lists (foldl ?step (?step s p) xs)"
    by simp
  also have "\<dots> = map ?h (price_lists (?step s p))"
    by (rule Cons.IH [OF d])
  also have "\<dots> = map (\<lambda>r. ?h (?g r)) (price_lists s)"
    unfolding first by (simp add: o_def)
  also have "\<dots> = map ?h' (price_lists s)"
  proof (rule map_cong [OF refl])
    fix r
    show "?h (?g r) = ?h' r"
    proof (cases "pk r = pk p")
      case True
      have "List.find (\<lambda>q. pk q = pk (f p)) xs = None"
        using find_other_pk [OF np] by (simp add: assms)
      with True show ?thesis by simp
    next
      case False
      then have "pk p \<noteq> pk r" by simp
      with False show ?thesis by simp
    qed
  qed
  finally show ?case .
qed

lemma foldl_save_outbox:
  "outbox (foldl (\<lambda>s p. s\<lparr>price_lists := save (f p) (price_lists s),
                            outbox := outbox s @ [n (pk p)]\<rparr>) s xs)
     = outbox s @ map (\<lambda>p. n (pk p)) xs"
  by (induction xs arbitrary: s) simp_all

lemma foldl_save_flash:
  "flash (foldl (\<lambda>s p. s\<lparr>price_lists := save (f p) (price_lists s),
                           outbox := outbox s @ [n (pk p)]\<rparr>) s xs)
     = flash s"
  by (induction xs arbitrary: s) simp_all

lemma find_in_filter:
  "distinct (map pk table) \<Longrightarrow> r \<in> set table \<Longrightarrow>
     List.find (\<lambda>p. pk p = pk r) (filter P table) = (if P r then Some r else None)"
proof (induction table)
  case Nil
  then show ?case by simp
next
  case (Cons a table)
  show ?case
  proof (cases "r = a")
    case True
    with Cons.prems have "pk a \<notin> pk ` set (filter P table)" by auto
    from find_other_pk [OF this] True show ?thesis by simp
  next
    case False
    with Cons.prems have r: "r \<in> set table" and d: "distinct (map pk table)"
      and "pk a \<noteq> pk r" by auto
    with Cons.IH [OF d r] show ?thesis by simp
  qed
qed

text \<open>The loop of a bulk action writes exactly the rows its queryset selects.\<close>

lemma bulk_price_lists:
  assumes "\<And>p. pk (f p) = pk p" and "distinct (map pk (price_lists s))"
  shows "price_lists (foldl (\<lambda>s p. s\<lparr>price_lists := save (f p) (price_lists s),
                                       outbox := outbox s @ [n (pk p)]\<rparr>)
                        s (filter P (price_lists s)))
         = map (\<lambda>r. if P r then f r else r) (price_lists s)"
proof -
  have d: "distinct (map pk (filter P (price_lists s)))"
    using assms(2) by (simp add: distinct_map_filter)
  show ?thesis
    unfolding foldl_save_price_lists [of f, OF assms(1) d]
    by (rule map_cong) (simp_all add: find_in_filter [OF assms(2)])
qed

lemma transitioned_map:
  "transitioned table (map g table) = length (filter (\<lambda>p. status p \<noteq> status (g p)) table)"
proof -
  have "zip table (map g table) = map (\<lambda>p. (p, g p)) table"
    by (induction table) simp_all
  then show ?thesis
    by (simp add: transitioned_def filter_map o_def)
qed

lemma approve_price_lists:
  "distinct (map pk (price_lists s)) \<Longrightarrow>
     price_lists (approve u q s) =
       map (\<lambda>p. if q p \<and> status p \<noteq> STATUS_APPROVED then p\<lparr>status := STATUS_APPROVED\<rparr> else p)
           (price_lists s)"
  using bulk_price_lists [of "SubmittedPriceList_approve u" s Price_list_approved
          "\<lambda>p. q p \<and> status p \<noteq> STATUS_APPROVED"]
  by (simp add: approve_def Let_def SubmittedPriceList_approve_def)

lemma unapprove_price_lists:
  "distinct (map pk (price_lists s)) \<Longrightarrow>
     price_lists (unapprove u q s) =
       map (\<lambda>p. if q p \<and> status p = STATUS_APPROVED then p\<lparr>status := STATUS_UNAPPROVED\<rparr> else p)
           (price_lists s)"
  using bulk_price_lists [of "SubmittedPriceList_unapprove u" s Price_list_unapproved
          "\<lambda>p. q p \<and> status p = STATUS_APPROVED"]
  by (simp add: unapprove_def Let_def SubmittedPriceList_unapprove_def)

lemma reject_price_lists:
  "distinct (map pk (price_lists s)) \<Longrightarrow>
     price_lists (reject u q s) =
       map (\<lambda>p. if q p \<and> status p = STATUS_NEW then p\<lparr>status := STATUS_REJECTED\<rparr> else p)
           (price_lists s)"
  using bulk_price_lists [of "SubmittedPriceList_reject u" s Price_list_rejected
          "\<lambda>p. q p \<and> status p = STATUS_NEW"]
  by (simp add: reject_def Let_def SubmittedPriceList_reject_def)

lemma approve_outbox:
  "outbox (approve u q s) =
     outbox s @ map (\<lambda>p. Price_list_approved (pk p))
                    (filter (\<lambda>p. q p \<and> status p \<noteq> STATUS_APPROVED) (price_lists s))"
  by (simp add: approve_def Let_def foldl_save_outbox)

lemma unapprove_outbox:
  "outbox (unapprove u q s) =
     outbox s @ map (\<lambda>p. Price_list_unapproved (pk p))
                    (filter (\<lambda>p. q p \<and> status p = STATUS_APPROVED) (price_lists s))"
  by (simp add: unapprove_def Let_def foldl_save_outbox)

lemma reject_outbox:
  "outbox (reject u q s) =
     outbox s @ map (\<lambda>p. Price_list_rejected (pk p))
                    (filter (\<lambda>p. q p \<and> status p = STATUS_NEW) (price_lists s))"
  by (simp add: reject_def Let_def foldl_save_outbox)

lemma approve_flash:
  "flash (approve u q s) =
     flash s @ [str_nat (length (filter (\<lambda>p. q p \<and> status p \<noteq> STATUS_APPROVED) (price_lists s)))
                @ '' price list(s) have been approved and added to CALC.'']"
  by (simp add: approve_def Let_def foldl_save_flash)

lemma unapprove_flash:
  "flash (unapprove u q s) =
     flash s @ [str_nat (length (filter (\<lambda>p. q p \<and> status p = STATUS_APPROVED) (price_lists s)))
                @ '' price list(s) have been unapproved and removed from CALC.'']"
  by (simp add: unapprove_def Let_def foldl_save_flash)

lemma reject_flash:
  "flash (reject u q s) =
     flash s @ [str_nat (length (filter (\<lambda>p. q p \<and> status p = STATUS_NEW) (price_lists s)))
                @ '' price list(s) have been rejected.'']"
  by (simp add: reject_def Let_def foldl_save_flash)


text \<open>After an action no row is eligible for it any more.\<close>

lemma approve_none_left:
  "distinct (map pk (price_lists s)) \<Longrightarrow>
     filter (\<lambda>p. q p \<and> status p \<noteq> STATUS_APPROVED) (price_lists (approve u q s)) = []"
  by (auto simp: approve_price_lists filter_empty_conv)

lemma unapprove_none_left:
  "distinct (map pk (price_lists s)) \<Longrightarrow>
     filter (\<lambda>p. q p \<and> status p = STATUS_APPROVED) (price_lists (unapprove u q s)) = []"
  by (auto simp: unapprove_price_lists filter_empty_conv)

lemma reject_none_left:
  "distinct (map pk (price_lists s)) \<Longrightarrow>
     filter (\<lambda>p. q p \<and> status p = STATUS_NEW) (price_lists (reject u q s)) = []"
  by (auto simp: reject_price_lists filter_empty_conv)

lemma approve_again:
  assumes "distinct (map pk (price_lists s))"
  shows "approve u q (approve u q s) =
           (approve u q s)\<lparr>flash := flash (approve u q s)
              @ [''0 price list(s) have been approved and added to CALC.'']\<rparr>"
  unfolding approve_def [of u q "approve u q s"] Let_def approve_none_left [OF assms]
  by (simp add: str_nat.simps)

lemma unapprove_again:
  assumes "distinct (map pk (price_lists s))"
  shows "unapprove u q (unapprove u q s) =
           (unapprove u q s)\<lparr>flash := flash (unapprove u q s)
              @ [''0 price list(s) have been unapproved and removed from CALC.'']\<rparr>"
  unfolding unapprove_def [of u q "unapprove u q s"] Let_def unapprove_none_left [OF assms]
  by (simp add: str_nat.simps)

lemma reject_again:
  assumes "distinct (map pk (price_lists s))"
  shows "reject u q (reject u q s) =
           (reject u q s)\<lparr>flash := flash (reject u q s)
              @ [''0 price list(s) have been rejected.'']\<rparr>"
  unfolding reject_def [of u q "reject u q s"] Let_def reject_none_left [OF assms]
  by (simp add: str_nat.simps)

text \<open>The count of the message is the number of rows whose status the action changed.\<close>

lemma approve_count:
  assumes "distinct (map pk (price_lists s))"
  shows "transitioned (price_lists s) (price_lists (approve u q s)) =
           length (filter (\<lambda>p. q p \<and> status p \<noteq> STATUS_APPROVED) (price_lists s))"
  unfolding approve_price_lists [OF assms] transitioned_map
  by (rule arg_cong [where f = length], rule filter_cong [OF refl]) auto

lemma unapprove_count:
  assumes "distinct (map pk (price_lists s))"
  shows "transitioned (price_lists s) (price_lists (unapprove u q s)) =
           length (filter (\<lambda>p. q p \<and> status p = STATUS_APPROVED) (price_lists s))"
  unfolding unapprove_price_lists [OF assms] transitioned_map
  by (rule arg_cong [where f = length], rule filter_cong [OF refl]) auto

lemma reject_count:
  assumes "distinct (map pk (price_lists s))"
  shows "transitioned (price_lists s) (price_lists (reject u q s)) =
           length (filter (\<lambda>p. q p \<and> status p = STATUS_NEW) (price_lists s))"
  unfolding reject_price_lists [OF assms] transitioned_map
  by (rule arg_cong [where f = length], rule filter_cong [OF refl]) auto

text \<open>
  Claim C9. On a table with distinct primary keys, each bulk action changes exactly the
  rows of its queryset that are in the eligible status (not APPROVED for \<open>approve\<close>,
  APPROVED for \<open>unapprove\<close>, NEW for \<open>reject\<close>) and sends a notification for exactly these;
  applying the action again to the result changes no row and sends nothing; and the count
  in the message is the number of rows whose status the action changed. The transitions
  themselves are those of the model methods, taken from the spec.
\<close>

theorem bulk_actions_only_eligible:
  assumes "distinct (map pk (price_lists s))"
  shows "price_lists (approve u q s) =
           map (\<lambda>p. if q p \<and> status p \<noteq> STATUS_APPROVED then p\<lparr>status := STATUS_APPROVED\<rparr>
                     else p) (price_lists s)
       \<and> price_lists (unapprove u q s) =
           map (\<lambda>p. if q p \<and> status p = STATUS_APPROVED then p\<lparr>status := STATUS_UNAPPROVED\<rparr>
                     else p) (price_lists s)
       \<and> price_lists (reject u q s) =
           map (\<lambda>p. if q p \<and> status p = STATUS_NEW then p\<lparr>status := STATUS_REJECTED\<rparr>
                     else p) (price_lists s)
       \<and> outbox (approve u q s) =
           outbox s @ map (\<lambda>p. Price_list_approved (pk p))
                          (filter (\<lambda>p. q p \<and> status p \<noteq> STATUS_APPROVED) (price_lists s))
       \<and> outbox (unapprove u q s) =
           outbox s @ map (\<lambda>p. Price_list_unapproved (pk p))
                          (filter (\<lambda>p. q p \<and> status p = STATUS_APPROVED) (price_lists s))
       \<and> outbox (reject u q s) =
           outbox s @ map (\<lambda>p. Price_list_rejected (pk p))
                          (filter (\<lambda>p. q p \<and> status p = STATUS_NEW) (price_lists s))
       \<and> price_lists (approve u q (approve u q s)) = price_lists (approve u q s)
       \<and> outbox (approve u q (approve u q s)) = outbox (approve u q s)
       \<and> price_lists (unapprove u q (unapprove u q s)) = price_lists (unapprove u q s)
       \<and> outbox (unapprove u q (unapprove u q s)) = outbox (unapprove u q s)
       \<and> price_lists (reject u q (reject u q s)) = price_lists (reject u q s)
       \<and> outbox (reject u q (reject u q s)) = outbox (reject u q s)
       \<and> flash (approve u q s) =
           flash s @ [str_nat (transitioned (price_lists s) (price_lists (approve u q s)))
                      @ '' price list(s) have been approved and added to CALC.'']
       \<and> flash (unapprove u q s) =
           flash s @ [str_nat (transitioned (price_lists s) (price_lists (unapprove u q s)))
                      @ '' price list(s) have been unapproved and removed from CALC.'']
       \<and> flash (reject u q s) =
           flash s @ [str_nat (transitioned (price_lists s) (price_lists (reject u q s)))
                      @ '' price list(s) have been rejected.'']"
proof -
  note pl = approve_price_lists [OF assms, of u q] unapprove_price_lists [OF assms, of u q]
    reject_price_lists [OF assms, of u q]
  note ob = approve_outbox [of u q s] unapprove_outbox [of u q s] reject_outbox [of u q s]
  have again:
    "price_lists (approve u q (approve u q s)) = price_lists (approve u q s)"
    "outbox (approve u q (approve u q s)) = outbox (approve u q s)"
    "price_lists (unapprove u q (unapprove u q s)) = price_lists (unapprove u q s)"
    "outbox (unapprove u q (unapprove u q s)) = outbox (unapprove u q s)"
    "price_lists (reject u q (reject u q s)) = price_lists (reject u q s)"
    "outbox (reject u q (reject u q s)) = outbox (reject u q s)"
    unfolding approve_again [OF assms] unapprove_again [OF assms] reject_again [OF assms]
    by simp_all
  have fl:
    "flash (approve u q s) =
       flash s @ [str_nat (transitioned (price_lists s) (price_lists (approve u q s)))
                  @ '' price list(s) have been approved and added to CALC.'']"
    "flash (unapprove u q s) =
       flash s @ [str_nat (transitioned (price_lists s) (price_lists (unapprove u q s)))
                  @ '' price list(s) have been unapproved and removed from CALC.'']"
    "flash (reject u q s) =
       flash s @ [str_nat (transitioned (price_lists s) (price_lists (reject u q s)))
                  @ '' price list(s) have been rejected.'']"
    unfolding approve_count [OF assms] unapprove_count [OF assms] reject_count [OF assms]
    by (rule approve_flash, rule unapprove_flash, rule reject_flash)
  from pl ob again fl show ?thesis by blast
qed


text \<open>
  The theorem at the sample table with every row selected: approving changes the new and
  the rejected row and reports 2, approving again changes nothing, rejecting changes the
  new row and reports 1, unapproving changes the approved row.
\<close>

theorem bulk_actions_only_eligible_witness:
  "distinct (map pk (price_lists sample_site))
   \<and> price_lists (approve ''admin'' (\<lambda>p. True) sample_site) =
       [\<lparr>pk = 1, status = STATUS_APPROVED\<rparr>, \<lparr>pk = 2, status = STATUS_APPROVED\<rparr>,
        \<lparr>pk = 3, status = STATUS_APPROVED\<rparr>]
   \<and> outbox (approve ''admin'' (\<lambda>p. True) sample_site) =
       [Price_list_approved 1, Price_list_approved 3]
   \<and> flash (approve ''admin'' (\<lambda>p. True) sample_site) =
       [''2 price list(s) have been approved and added to CALC.'']
   \<and> price_lists (approve ''admin'' (\<lambda>p. True) (approve ''admin'' (\<lambda>p. True) sample_site)) =
       [\<lparr>pk = 1, status = STATUS_APPROVED\<rparr>, \<lparr>pk = 2, status = STATUS_APPROVED\<rparr>,
        \<lparr>pk = 3, status = STATUS_APPROVED\<rparr>]
   \<and> price_lists (reject ''admin'' (\<lambda>p. True) sample_site) =
       [\<lparr>pk = 1, status = STATUS_REJECTED\<rparr>, \<lparr>pk = 2, status = STATUS_APPROVED\<rparr>,
        \<lparr>pk = 3, status = STATUS_REJECTED\<rparr>]
   \<and> flash (reject ''admin'' (\<lambda>p. True) sample_site) =
       [''1 price list(s) have been rejected.'']
   \<and> price_lists (unapprove ''admin'' (\<lambda>p. True) sample_site) =
       [\<lparr>pk = 1, status = STATUS_NEW\<rparr>, \<lparr>pk = 2, status = STATUS_UNAPPROVED\<rparr>,
        \<lparr>pk = 3, status = STATUS_REJECTED\<rparr>]"
proof -
  have d: "distinct (map pk (price_lists sample_site))"
    by (simp add: sample_site_def)
  note t = bulk_actions_only_eligible [OF d, of "''admin''" "\<lambda>p. True"]
  have s2: "str_nat (Suc (Suc 0)) = ''2''" and s1: "str_nat (Suc 0) = ''1''"
    by (simp_all add: str_nat.simps)
  have ps: "price_lists sample_site =
      [\<lparr>pk = 1, status = STATUS_NEW\<rparr>, \<lparr>pk = 2, status = STATUS_APPROVED\<rparr>,
       \<lparr>pk = 3, status = STATUS_REJECTED\<rparr>]"
    and os: "outbox sample_site = []" and fs: "flash sample_site = []"
    by (simp_all add: sample_site_def)
  from t have a: "price_lists (approve ''admin'' (\<lambda>p. True) sample_site) =
       [\<lparr>pk = 1, status = STATUS_APPROVED\<rparr>, \<lparr>pk = 2, status = STATUS_APPROVED\<rparr>,
        \<lparr>pk = 3, status = STATUS_APPROVED\<rparr>]"
    by (simp add: ps os)
  from t have r: "price_lists (reject ''admin'' (\<lambda>p. True) sample_site) =
       [\<lparr>pk = 1, status = STATUS_REJECTED\<rparr>, \<lparr>pk = 2, status = STATUS_APPROVED\<rparr>,
        \<lparr>pk = 3, status = STATUS_REJECTED\<rparr>]"
    by (simp add: ps os)
  from t have un: "price_lists (unapprove ''admin'' (\<lambda>p. True) sample_site) =
       [\<lparr>pk = 1, status = STATUS_NEW\<rparr>, \<lparr>pk = 2, status = STATUS_UNAPPROVED\<rparr>,
        \<lparr>pk = 3, status = STATUS_REJECTED\<rparr>]"
    by (simp add: ps os)
  from t have o: "outbox (approve ''admin'' (\<lambda>p. True) sample_site) =
       [Price_list_approved 1, Price_list_approved 3]"
    by (simp add: ps os)
  from t have "flash (approve ''admin'' (\<lambda>p. True) sample_site) =
       flash sample_site
       @ [str_nat (transitioned (price_lists sample_site)
                     (price_lists (approve ''admin'' (\<lambda>p. True) sample_site)))
          @ '' price list(s) have been approved and added to CALC.'']"
    by blast
  then have fa: "flash (approve ''admin'' (\<lambda>p. True) sample_site) =
       [''2 price list(s) have been approved and added to CALC.'']"
    unfolding a by (simp add: ps fs transitioned_def s2)
  from t have "flash (reject ''admin'' (\<lambda>p. True) sample_site) =
       flash sample_site
       @ [str_nat (transitioned (price_lists sample_site)
                     (price_lists (reject ''admin'' (\<lambda>p. True) sample_site)))
          @ '' price list(s) have been rejected.'']"
    by blast
  then have fr: "flash (reject ''admin'' (\<lambda>p. True) sample_site) =
       [''1 price list(s) have been rejected.'']"
    unfolding r by (simp add: ps fs transitioned_def s1)
  from t have "price_lists (approve ''admin'' (\<lambda>p. True) (approve ''admin'' (\<lambda>p. True) sample_site))
      = price_lists (approve ''admin'' (\<lambda>p. True) sample_site)"
    by blast
  with a have aa: "price_lists (approve ''admin'' (\<lambda>p. True) (approve ''admin'' (\<lambda>p. True) sample_site)) =
       [\<lparr>pk = 1, status = STATUS_APPROVED\<rparr>, \<lparr>pk = 2, status = STATUS_APPROVED\<rparr>,
        \<lparr>pk = 3, status = STATUS_APPROVED\<rparr>]"
    by simp
  from d a o fa aa r fr un show ?thesis by blast
qed

end
